theory Spec2Isabelle
  imports Complex_Main
begin

section \<open>JavaScript values\<close>

text \<open>
  Numbers are modelled as reals. Where the source would produce \<open>NaN\<close> or an infinity
  (a division by zero, arithmetic on \<open>undefined\<close>) the model has an explicit outcome
  instead of a number: \<open>None\<close> for the index that \<open>binarySearch\<close> returns, the error
  \<open>NotFinite\<close> elsewhere. A thrown exception is the left summand of a result
  (\<open>TypeError\<close>). \<open>Math.random()\<close> reads the next element of an explicit finite list
  of draws; the error \<open>OutOfDraws\<close> says that the list did not suffice, as it does not
  when a loop on draws goes on for ever. \<open>Unmodelled\<close> marks the one place where the
  model stops short of the source.
\<close>

datatype error = TypeError | OutOfDraws | NotFinite | Unmodelled

definition Math_round :: "real \<Rightarrow> int" where
  "Math_round x = \<lfloor>x + 1 / 2\<rfloor>"

definition Math_floor :: "real \<Rightarrow> int" where
  "Math_floor x = \<lfloor>x\<rfloor>"

definition Math_min :: "real \<Rightarrow> real \<Rightarrow> real" where
  "Math_min a b = (if b < a then b else a)"

definition Math_max :: "real \<Rightarrow> real \<Rightarrow> real" where
  "Math_max a b = (if a < b then b else a)"

text \<open>A draw is a number from 0 (inclusive) to 1 (exclusive); anything else ends the list.\<close>

fun Math_random :: "real list \<Rightarrow> (real \<times> real list) option" where
  "Math_random [] = None"
| "Math_random (r # ds) = (if 0 \<le> r \<and> r < 1 then Some (r, ds) else None)"

text \<open>The decimal digits of a natural number, as a number is converted to a string.\<close>

fun show_nat :: "nat \<Rightarrow> string" where
  "show_nat n =
     (if n < 10 then [''0123456789'' ! n]
      else show_nat (n div 10) @ [''0123456789'' ! (n mod 10)])"

declare show_nat.simps [simp del]

text \<open>The remainder operator \<open>%\<close> on integers: the result has the sign of the dividend.\<close>

definition jsmod :: "int \<Rightarrow> int \<Rightarrow> int" where
  "jsmod a b = sgn a * (\<bar>a\<bar> mod \<bar>b\<bar>)"

text \<open>
  An object is an association list of its own properties in the order \<open>Object.keys\<close> and
  \<open>for ... in\<close> enumerate them, each key once. That order is the order of insertion for
  keys that do not read as array indices; node names are such keys.
\<close>

type_synonym 'v obj = "(string \<times> 'v) list"

definition Object_keys :: "'v obj \<Rightarrow> string list" where
  "Object_keys ob = map fst ob"

definition obj_get :: "'v obj \<Rightarrow> string \<Rightarrow> 'v option" where
  "obj_get ob k = map_of ob k"

definition obj_in :: "string \<Rightarrow> 'v obj \<Rightarrow> bool" where
  "obj_in k ob = (k \<in> set (Object_keys ob))"

fun obj_set :: "'v obj \<Rightarrow> string \<Rightarrow> 'v \<Rightarrow> 'v obj" where
  "obj_set [] k v = [(k, v)]"
| "obj_set ((k', v') # ob) k v =
     (if k' = k then (k, v) # ob else (k', v') # obj_set ob k v)"

definition obj_delete :: "'v obj \<Rightarrow> string \<Rightarrow> 'v obj" where
  "obj_delete ob k = filter (\<lambda>(k', v). k' \<noteq> k) ob"

section \<open>helpers: binarySearch and extendObjs\<close>

text \<open>
  The \<open>while\<close> loop of \<open>binarySearch\<close>. It leaves either through \<open>return mid\<close>
  (\<open>Return\<close>) or by its condition (\<open>Fallthrough\<close>, with the last value of \<open>mid\<close>,
  \<open>None\<close> while \<open>mid\<close> is still \<open>undefined\<close>). The three tests on
  \<open>trans(arr[mid]) - x\<close> are exhaustive on the reals, so the last one is the \<open>else\<close>
  of the model.
\<close>

datatype loop_exit = Return int | Fallthrough "int option"

function search_loop ::
  "('a \<Rightarrow> real) \<Rightarrow> 'a list \<Rightarrow> real \<Rightarrow> int \<Rightarrow> int \<Rightarrow> int option \<Rightarrow> loop_exit" where
  "search_loop tr arr x m M mid =
     (if m \<le> M then
        (let mid' = m + Math_round (real_of_int (M - m) / 2) in
         if tr (arr ! nat mid') - x = 0 then Return mid'
         else if tr (arr ! nat mid') - x < 0 then search_loop tr arr x (mid' + 1) M (Some mid')
         else search_loop tr arr x m (mid' - 1) (Some mid'))
      else Fallthrough mid)"
  by pat_completeness auto

lemma Math_round_half: "Math_round (real_of_int k / 2) = (k + 1) div 2"
proof -
  have "Math_round (real_of_int k / 2) = \<lfloor>real_of_int (k + 1) / real_of_int 2\<rfloor>"
    unfolding Math_round_def by (simp add: add_divide_distrib)
  also have "\<dots> = (k + 1) div 2"
    by (rule floor_divide_of_int_eq)
  finally show ?thesis .
qed

termination search_loop
  by (relation "measure (\<lambda>(tr, arr, x, m, M, mid). nat (M - m + 1))")
     (auto simp add: Math_round_half simp del: of_int_diff)

declare search_loop.simps [simp del]

text \<open>
  \<open>binarySearch(arr, x, trans)\<close>. On an empty array the loop is not entered, \<open>mid\<close>
  stays \<open>undefined\<close> and the arithmetic after the loop is on \<open>NaN\<close>: the outcome
  \<open>None\<close>.
\<close>

definition binarySearch :: "'a list \<Rightarrow> real \<Rightarrow> ('a \<Rightarrow> real) \<Rightarrow> int option" where
  "binarySearch arr x tr =
     (case search_loop tr arr x 0 (int (length arr) - 1) None of
        Return i \<Rightarrow> Some i
      | Fallthrough None \<Rightarrow> None
      | Fallthrough (Some mid0) \<Rightarrow>
          (let mid = min (max 0 mid0) (int (length arr) - 1);
               i1 = max 0 (mid - 1);
               i2 = mid
           in if tr (arr ! nat i1) - x > 0 then Some i1
              else if tr (arr ! nat i2) - x > 0 then Some i2
              else Some (i2 + 1)))"

text \<open>\<open>extendObjs(obj1, obj2)\<close>: the keys of \<open>obj1\<close>, then those of \<open>obj2\<close>.\<close>

definition extendObjs :: "'v obj \<Rightarrow> 'v obj \<Rightarrow> 'v obj" where
  "extendObjs obj1 obj2 =
     fold (\<lambda>(k, v) ob. obj_set ob k v) obj2 (fold (\<lambda>(k, v) ob. obj_set ob k v) obj1 [])"

section \<open>constants\<close>

definition POINTING_UP :: int where [simp]: "POINTING_UP = 0"
definition POINTING_RIGHT :: int where [simp]: "POINTING_RIGHT = 1"
definition POINTING_DOWN :: int where [simp]: "POINTING_DOWN = 2"
definition POINTING_LEFT :: int where [simp]: "POINTING_LEFT = 3"
definition HORIZONTAL :: int where [simp]: "HORIZONTAL = 1"
definition VERTICAL :: int where [simp]: "VERTICAL = 0"

section \<open>TDiagram: the tree and its coordinates\<close>

text \<open>
  The properties shared by the nodes of a diagram and the entries of a geometry. A
  property that may be absent (\<open>branch_at\<close>) is an option; \<open>parent\<close> is the empty string
  for the root; \<open>hidden\<close> is \<open>hidden === true\<close>.
\<close>

record props =
  parent :: string
  length' :: real
  branch_at :: "real option"
  hidden :: bool

text \<open>A node of the list given to \<open>TDiagram\<close>.\<close>

record node = props +
  name :: string
  direction :: string
  seq :: real

text \<open>
  What \<open>setUpCoordinates\<close> adds to a node: \<open>coordinates\<close> is the pair \<open>(x, y)\<close>.
  An entry of the geometry map has the names of the children as well; a name that is
  \<open>undefined\<close> is \<open>None\<close>. The \<open>name\<close> of an entry is the key it is stored under
  (\<open>getGeometry\<close> and \<open>introduceBreaks\<close> store every entry under its name), so the
  entries are kept without it and the key is read where the source reads \<open>.name\<close>.
\<close>

record placed = props +
  coordinates :: "real \<times> real"
  pointing :: int

record gnode = placed +
  children :: "string option list"

datatype tree = Tree node "tree list"

datatype ptree = PTree string placed "ptree list"

fun ptree_name :: "ptree \<Rightarrow> string" where
  "ptree_name (PTree nm p cs) = nm"

text \<open>
  The constructor. \<open>nodes\<close> stores every item under its name with no children; the
  second pass goes through the list backwards and moves an item whose parent is a key of
  the map into the children of that parent. The item of the list is the object stored
  under its name unless a later item has the same name (that one has replaced it in
  \<open>nodes\<close>); such an item is not in the map and has no children. \<open>seen\<close> are the names
  of the items already passed by the second pass.
\<close>

definition make_nodes :: "node list \<Rightarrow> tree obj" where
  "make_nodes diagram = fold (\<lambda>item tree. obj_set tree (name item) (Tree item [])) diagram []"

fun add_child :: "tree \<Rightarrow> tree \<Rightarrow> tree" where
  "add_child item (Tree p cs) = Tree p (item # cs)"

fun link_nodes :: "node list \<Rightarrow> string list \<Rightarrow> tree obj \<Rightarrow> tree obj" where
  "link_nodes [] seen tree = tree"
| "link_nodes (item # rest) seen tree =
     link_nodes rest (name item # seen)
       (case obj_get tree (parent item) of
          None \<Rightarrow> tree
        | Some p \<Rightarrow>
            (let it = (if name item \<in> set seen then Tree item []
                       else (case obj_get tree (name item) of
                               None \<Rightarrow> Tree item [] | Some t \<Rightarrow> t))
             in obj_delete (obj_set tree (parent item) (add_child it p)) (name item)))"

definition build_tree :: "node list \<Rightarrow> tree obj" where
  "build_tree diagram = link_nodes (rev diagram) [] (make_nodes diagram)"

text \<open>\<open>getRoot\<close>: the first entry of the tree, or \<open>null\<close>.\<close>

fun getRoot :: "tree obj \<Rightarrow> tree option" where
  "getRoot [] = None"
| "getRoot ((k, t) # tree) = Some t"

text \<open>
  \<open>setUpCoordinates(root, parent, pointing)\<close>. Of the parent the function reads the
  coordinates, the orientation, the length and the number of children: the record
  \<open>pview\<close>. The nodes the constructor builds do not carry \<open>end_added\<close>, so the end of the
  segment is added to every node.
\<close>

record pview =
  pcoordinates :: "real \<times> real"
  ppointing :: int
  plength :: real
  pchildren :: nat

definition getCoordToUpdate :: "int \<Rightarrow> string" where
  "getCoordToUpdate pointing_dir =
     (if pointing_dir = POINTING_RIGHT \<or> pointing_dir = POINTING_LEFT then ''x'' else ''y'')"

definition getDirectionToUpdate :: "int \<Rightarrow> real" where
  "getDirectionToUpdate pointing_dir =
     (if pointing_dir = POINTING_RIGHT \<or> pointing_dir = POINTING_DOWN then 1 else - 1)"

text \<open>\<open>coordinates[axis] += d\<close>\<close>

definition coord_add :: "real \<times> real \<Rightarrow> string \<Rightarrow> real \<Rightarrow> real \<times> real" where
  "coord_add c axis d = (if axis = ''x'' then (fst c + d, snd c) else (fst c, snd c + d))"

definition end_seg :: "string \<Rightarrow> placed \<Rightarrow> ptree" where
  "end_seg nm rt =
     PTree (nm @ ''_end'')
       \<lparr>parent = nm, length' = 0, branch_at = Some (length' rt), hidden = True,
        coordinates = coord_add (coordinates rt) (getCoordToUpdate (pointing rt))
                        (length' rt * getDirectionToUpdate (pointing rt)),
        pointing = pointing rt\<rparr> []"

definition angle :: "tree \<Rightarrow> int" where
  "angle child = (case child of Tree c cs \<Rightarrow> if direction c = ''right'' then 1 else - 1)"

fun setUpCoordinates :: "tree \<Rightarrow> pview \<Rightarrow> int \<Rightarrow> ptree" where
  "setUpCoordinates (Tree rt cs) par pnt =
     (let delta = (case branch_at rt of
                     None \<Rightarrow> (seq rt + 1) / real (pchildren par) * plength par
                   | Some b \<Rightarrow> b);
          c = coord_add (pcoordinates par) (getCoordToUpdate (ppointing par))
                (delta * getDirectionToUpdate (ppointing par));
          rt' = \<lparr>parent = parent rt, length' = length' rt, branch_at = branch_at rt,
                   hidden = hidden rt, coordinates = c, pointing = pnt\<rparr>;
          view = \<lparr>pcoordinates = c, ppointing = pnt, plength = length' rt,
                  pchildren = length cs\<rparr>
      in PTree (name rt) rt'
           (map (\<lambda>child. setUpCoordinates child view (jsmod (4 + pnt + angle child) 4)) cs
            @ [end_seg (name rt) rt']))"

definition computeCoord :: "tree obj \<Rightarrow> error + ptree" where
  "computeCoord tree =
     (case getRoot tree of
        None \<Rightarrow> Inl TypeError
      | Some rt \<Rightarrow>
          Inr (setUpCoordinates rt
                 \<lparr>pcoordinates = (0, 0), ppointing = POINTING_UP, plength = 0, pchildren = 1\<rparr>
                 POINTING_RIGHT))"

text \<open>\<open>getGeometry(root)\<close> on a tree with coordinates.\<close>

fun getGeometry_of :: "ptree \<Rightarrow> gnode obj" where
  "getGeometry_of (PTree nm rt cs) =
     extendObjs
       [(nm, \<lparr>parent = parent rt, length' = length' rt, branch_at = branch_at rt,
              hidden = hidden rt, coordinates = coordinates rt, pointing = pointing rt,
              children = map (\<lambda>c. Some (ptree_name c)) cs\<rparr>)]
       (foldl extendObjs [] (map getGeometry_of cs))"

text \<open>A \<open>TDiagram\<close>: the tree the constructor builds and the margins.\<close>

record tdiagram =
  tree :: "tree obj"
  margins_left :: real
  margins_top :: real

definition TDiagram :: "node list \<Rightarrow> tdiagram" where
  "TDiagram diagram = \<lparr>tree = build_tree diagram, margins_left = 0, margins_top = 0\<rparr>"

text \<open>
  The queries run \<open>computeCoord\<close> on first use (\<open>requiresCoordinates\<close>) and read the
  same tree afterwards; the model computes the coordinates from the tree at each query.
\<close>

definition getGeometry :: "tdiagram \<Rightarrow> error + gnode obj" where
  "getGeometry td =
     (case computeCoord (tree td) of Inl e \<Rightarrow> Inl e | Inr rt \<Rightarrow> Inr (getGeometry_of rt))"

text \<open>
  \<open>arr.reduce(min_r(coord), Infinity)\<close> and \<open>arr.reduce(max_r(coord), -Infinity)\<close>: on an
  empty array the result is the infinity, which is no real number.
\<close>

fun reduce_min :: "real list \<Rightarrow> error + real" where
  "reduce_min [] = Inl NotFinite"
| "reduce_min (v # vs) = Inr (foldl (\<lambda>m v'. Math_min v' m) v vs)"

fun reduce_max :: "real list \<Rightarrow> error + real" where
  "reduce_max [] = Inl NotFinite"
| "reduce_max (v # vs) = Inr (foldl (\<lambda>m v'. Math_max v' m) v vs)"

record bounds =
  left :: real
  top' :: real
  right :: real
  bottom :: real

definition getBounds :: "tdiagram \<Rightarrow> error + bounds" where
  "getBounds td =
     (case getGeometry td of
        Inl e \<Rightarrow> Inl e
      | Inr geometry \<Rightarrow>
          (let xs = map (\<lambda>(k, v). fst (coordinates v)) geometry;
               ys = map (\<lambda>(k, v). snd (coordinates v)) geometry
           in case (reduce_min xs, reduce_max xs, reduce_min ys, reduce_max ys) of
                (Inr l, Inr r, Inr t, Inr b) \<Rightarrow> Inr \<lparr>left = l, top' = t, right = r, bottom = b\<rparr>
              | _ \<Rightarrow> Inl NotFinite))"

definition getCanvasHeight :: "tdiagram \<Rightarrow> error + real" where
  "getCanvasHeight td =
     (case getBounds td of
        Inl e \<Rightarrow> Inl e
      | Inr bounds \<Rightarrow> Inr (bottom bounds - top' bounds + 2 * margins_top td))"

definition getCanvasWidth :: "tdiagram \<Rightarrow> error + real" where
  "getCanvasWidth td =
     (case getBounds td of
        Inl e \<Rightarrow> Inl e
      | Inr bounds \<Rightarrow> Inr (right bounds - left bounds + 2 * margins_left td))"

section \<open>TDiagramCost\<close>

text \<open>A child name used as a key: \<open>undefined\<close> is the key \<open>"undefined"\<close>.\<close>

definition child_key :: "string option \<Rightarrow> string" where
  "child_key c = (case c of None \<Rightarrow> ''undefined'' | Some k \<Rightarrow> k)"

subsection \<open>introduceBreaks\<close>

text \<open>
  The name of the break: \<open>'b' + Math.round(Math.random() * 10e10)\<close>, drawn again while
  it is a key of the geometry. The number is an integer from 0 to \<open>10^11\<close>.
\<close>

fun break_node_name :: "gnode obj \<Rightarrow> real list \<Rightarrow> error + (string \<times> real list)" where
  "break_node_name geometry [] = Inl OutOfDraws"
| "break_node_name geometry (r # ds) =
     (if 0 \<le> r \<and> r < 1 then
        (let rand = Math_round (r * 100000000000) in
         if obj_in (''b'' @ show_nat (nat rand)) geometry then break_node_name geometry ds
         else Inr (''b'' @ show_nat (nat rand), ds))
      else Inl OutOfDraws)"

text \<open>The distance of a child from the node, \<open>undefined\<close> when the child is no key.\<close>

definition child_distance :: "gnode obj \<Rightarrow> gnode \<Rightarrow> string option \<Rightarrow> real option" where
  "child_distance geometry nd c =
     (case obj_get geometry (child_key c) of
        None \<Rightarrow> None
      | Some child \<Rightarrow>
          Some (\<bar>fst (coordinates child) - fst (coordinates nd)\<bar>
                + \<bar>snd (coordinates child) - snd (coordinates nd)\<bar>))"

text \<open>
  \<open>xs.splice(start)\<close>: what stays in \<open>xs\<close> and what is removed and returned. A \<open>NaN\<close>
  start is 0.
\<close>

definition splice' :: "'a list \<Rightarrow> int option \<Rightarrow> 'a list \<times> 'a list" where
  "splice' xs start =
     (let i = (case start of None \<Rightarrow> 0 | Some i \<Rightarrow> i);
          k = (if i < 0 then max (int (length xs) + i) 0 else min i (int (length xs)))
      in (take (nat k) xs, drop (nat k) xs))"

definition break_node :: "string \<Rightarrow> gnode \<Rightarrow> real \<Rightarrow> string option list \<Rightarrow> gnode" where
  "break_node node nd l newChildren =
     \<lparr>parent = node, length' = length' nd - l, branch_at = Some l, hidden = True,
      coordinates =
        (fst (coordinates nd)
           + real_of_int (jsmod (pointing nd) 2)
             * (if pointing nd = POINTING_RIGHT then 1 else - 1) * l,
         snd (coordinates nd)
           + real_of_int (jsmod (pointing nd + 1) 2)
             * (if pointing nd = POINTING_DOWN then 1 else - 1) * l),
      pointing = (if jsmod (pointing nd) 2 = VERTICAL then POINTING_RIGHT else POINTING_UP),
      children = newChildren\<rparr>"

fun set_parents :: "gnode obj \<Rightarrow> string option list \<Rightarrow> string \<Rightarrow> error + gnode obj" where
  "set_parents geometry [] b = Inr geometry"
| "set_parents geometry (c # cs) b =
     (case obj_get geometry (child_key c) of
        None \<Rightarrow> Inl TypeError
      | Some child \<Rightarrow> set_parents (obj_set geometry (child_key c) (child\<lparr>parent := b\<rparr>)) cs b)"

text \<open>The body of the \<open>forEach\<close> of \<open>introduceBreaks\<close>, for one key of \<open>breaks\<close>.\<close>

definition introduceBreak ::
  "gnode obj \<Rightarrow> string \<Rightarrow> real \<Rightarrow> real list \<Rightarrow> error + (gnode obj \<times> real list)" where
  "introduceBreak geometry node break_at ds =
     (case obj_get geometry node of
        None \<Rightarrow> Inl TypeError
      | Some nd \<Rightarrow>
          (let l = length' nd * break_at in
           case break_node_name geometry ds of
             Inl e \<Rightarrow> Inl e
           | Inr (bname, ds') \<Rightarrow>
               (case those (map (child_distance geometry nd) (children nd)) of
                  None \<Rightarrow> Inl TypeError
                | Some arr \<Rightarrow>
                    (let index_to_break = binarySearch arr l (\<lambda>x. x);
                         kept = fst (splice' (children nd) index_to_break);
                         removed = snd (splice' (children nd) index_to_break);
                         newChildren = butlast removed;
                         node_end = (if removed = [] then None else last removed);
                         g1 = obj_set geometry node
                                (nd\<lparr>children := kept @ [Some bname] @ [node_end], length' := l\<rparr>)
                     in case set_parents g1 newChildren bname of
                          Inl e \<Rightarrow> Inl e
                        | Inr g2 \<Rightarrow>
                            Inr (obj_set g2 bname (break_node node nd l newChildren), ds')))))"

fun introduce_all ::
  "gnode obj \<Rightarrow> real obj \<Rightarrow> real list \<Rightarrow> error + (gnode obj \<times> real list)" where
  "introduce_all geometry [] ds = Inr (geometry, ds)"
| "introduce_all geometry ((node, break_at) # breaks) ds =
     (case introduceBreak geometry node break_at ds of
        Inl e \<Rightarrow> Inl e
      | Inr (g, ds') \<Rightarrow> introduce_all g breaks ds')"

subsection \<open>updateFromGeometry\<close>

definition endsWith :: "string \<Rightarrow> string \<Rightarrow> bool" where
  "endsWith s e = (length e \<le> length s \<and> drop (length s - length e) s = e)"

text \<open>\<open>xs.indexOf(v)\<close>: the first index of \<open>v\<close>, or \<open>-1\<close>.\<close>

fun indexOf_from :: "'a list \<Rightarrow> 'a \<Rightarrow> int \<Rightarrow> int" where
  "indexOf_from [] v i = - 1"
| "indexOf_from (x # xs) v i = (if x = v then i else indexOf_from xs v (i + 1))"

definition indexOf :: "'a list \<Rightarrow> 'a \<Rightarrow> int" where
  "indexOf xs v = indexOf_from xs v 0"

text \<open>
  The node of the new diagram for the entry \<open>nd\<close> under the key \<open>k\<close>: the entry with
  \<open>direction\<close> and \<open>seq\<close> set from its parent.
\<close>

definition derive_node :: "gnode obj \<Rightarrow> string \<Rightarrow> gnode \<Rightarrow> error + node" where
  "derive_node geometry k nd =
     (if parent nd = [] then
        Inr \<lparr>parent = parent nd, length' = length' nd, branch_at = branch_at nd,
             hidden = hidden nd, name = k, direction = ''right'', seq = 0\<rparr>
      else
        (case obj_get geometry (parent nd) of
           None \<Rightarrow> Inl TypeError
         | Some par \<Rightarrow>
             Inr \<lparr>parent = parent nd, length' = length' nd, branch_at = branch_at nd,
                  hidden = hidden nd, name = k,
                  direction = (if pointing par - pointing nd > 0 then ''left'' else ''right''),
                  seq = real_of_int (indexOf (children par) (Some k))\<rparr>))"

fun derive_nodes :: "gnode obj \<Rightarrow> gnode obj \<Rightarrow> error + node list" where
  "derive_nodes geometry [] = Inr []"
| "derive_nodes geometry ((k, nd) # rest) =
     (if endsWith k ''_end'' then derive_nodes geometry rest
      else (case derive_node geometry k nd of
              Inl e \<Rightarrow> Inl e
            | Inr n \<Rightarrow> (case derive_nodes geometry rest of
                          Inl e \<Rightarrow> Inl e
                        | Inr ns \<Rightarrow> Inr (n # ns))))"

text \<open>
  The \<open>while\<close> loop of the sort, from the entry under \<open>key\<close> upwards. \<open>added\<close> are the
  keys of the entries whose \<open>added\<close> is \<open>true\<close>, \<open>answer\<close> the keys of the entries pushed.
  The loop is entered with a key of the geometry (\<open>node.parent in self.geometry\<close>) and goes
  on to a parent only when it is one (\<open>parent.parent in self.geometry\<close>).
\<close>

function walk_up ::
  "gnode obj \<Rightarrow> string \<Rightarrow> string list \<Rightarrow> string list \<Rightarrow> string list \<times> string list" where
  "walk_up geometry key added answer =
     (if obj_in key geometry \<and> key \<notin> set added then
        (case obj_get geometry key of
           None \<Rightarrow> (answer @ [key], key # added)
         | Some par \<Rightarrow>
             (if obj_in (parent par) geometry
              then walk_up geometry (parent par) (key # added) (answer @ [key])
              else (answer @ [key], key # added)))
      else (answer, added))"
  by pat_completeness auto

lemma walk_up_measure:
  assumes "obj_in key geometry \<and> key \<notin> set added"
  shows "card (set (Object_keys geometry) - set (key # added))
           < card (set (Object_keys geometry) - set added)"
proof -
  have "set (Object_keys geometry) - set (key # added)
          \<subset> set (Object_keys geometry) - set added"
    using assms by (auto simp: obj_in_def)
  then show ?thesis
    by (intro psubset_card_mono) simp_all
qed

termination walk_up
  by (relation "measure (\<lambda>(geometry, key, added, answer).
                   card (set (Object_keys geometry) - set added))")
     (use walk_up_measure in auto)

declare walk_up.simps [simp del]

text \<open>
  The sort. \<open>tree.pop()\<close> takes the last node of the list, so the list is given in
  reverse; the nodes are named by their keys.
\<close>

fun sort_nodes :: "gnode obj \<Rightarrow> string list \<Rightarrow> string list \<Rightarrow> string list" where
  "sort_nodes geometry [] added = []"
| "sort_nodes geometry (nd # rest) added =
     (if nd \<in> set added then sort_nodes geometry rest added
      else
        (let up = (case obj_get geometry nd of
                     None \<Rightarrow> ([], added)
                   | Some n \<Rightarrow> walk_up geometry (parent n) added [])
         in rev (nd # fst up) @ sort_nodes geometry rest (nd # snd up)))"

text \<open>
  The nodes of the sorted list are the entries of the geometry with the \<open>direction\<close> and
  \<open>seq\<close> set before. The loop can push an entry that was left out before, one whose key
  ends in \<open>_end\<close>; it has neither, and the model stops there.
\<close>

fun nodes_named :: "node list \<Rightarrow> string list \<Rightarrow> error + node list" where
  "nodes_named ns [] = Inr []"
| "nodes_named ns (k # ks) =
     (case find (\<lambda>n. name n = k) ns of
        None \<Rightarrow> Inl Unmodelled
      | Some n \<Rightarrow> (case nodes_named ns ks of Inl e \<Rightarrow> Inl e | Inr r \<Rightarrow> Inr (n # r)))"

definition sorted_tdiagram :: "gnode obj \<Rightarrow> error + node list" where
  "sorted_tdiagram geometry =
     (case derive_nodes geometry geometry of
        Inl e \<Rightarrow> Inl e
      | Inr ns \<Rightarrow> nodes_named ns (sort_nodes geometry (rev (map name ns)) []))"

subsection \<open>intersections\<close>

text \<open>A segment is the pair of its two ends, each a pair \<open>(x, y)\<close>.\<close>

type_synonym segment = "(real \<times> real) \<times> (real \<times> real)"

definition node_segments :: "gnode obj \<Rightarrow> gnode \<Rightarrow> segment list option" where
  "node_segments geometry nd =
     those (map (\<lambda>c. map_option (\<lambda>child. (coordinates nd, coordinates child))
                        (obj_get geometry (child_key c)))
                (children nd))"

fun all_segments :: "gnode obj \<Rightarrow> gnode obj \<Rightarrow> error + segment list" where
  "all_segments geometry [] = Inr []"
| "all_segments geometry ((k, nd) # rest) =
     (case node_segments geometry nd of
        None \<Rightarrow> Inl TypeError
      | Some segs \<Rightarrow> (case all_segments geometry rest of
                       Inl e \<Rightarrow> Inl e
                     | Inr r \<Rightarrow> Inr (segs @ r)))"

definition is_horizontal :: "segment \<Rightarrow> bool" where
  "is_horizontal segment = (snd (fst segment) = snd (snd segment))"

definition is_vertical :: "segment \<Rightarrow> bool" where
  "is_vertical segment = (fst (fst segment) = fst (snd segment))"

record projection =
  projected :: "real \<times> real"
  other :: real

definition project :: "nat \<Rightarrow> segment \<Rightarrow> projection" where
  "project axis segment =
     (if axis = 0
      then \<lparr>projected = (fst (fst segment), fst (snd segment)), other = snd (fst segment)\<rparr>
      else \<lparr>projected = (snd (fst segment), snd (snd segment)), other = fst (fst segment)\<rparr>)"

text \<open>
  \<open>grouped\<close>: the projected segments under their \<open>other\<close> coordinate. Two numbers are the
  same key when they are equal.
\<close>

fun group_push ::
  "(real \<times> (real \<times> real) list) list \<Rightarrow> real \<Rightarrow> real \<times> real
     \<Rightarrow> (real \<times> (real \<times> real) list) list" where
  "group_push [] k s = [(k, [s])]"
| "group_push ((k', ss) # grouped) k s =
     (if k' = k then (k', ss @ [s]) # grouped else (k', ss) # group_push grouped k s)"

text \<open>
  \<open>s.sort()\<close> on the two ends of a projected segment has no comparison function: the
  numbers are ordered as strings. \<open>str_less a b\<close> stands for that order of the decimal
  representations of \<open>a\<close> and \<open>b\<close>, which is no operation on reals; it is a parameter.
\<close>

definition sort_ends :: "(real \<Rightarrow> real \<Rightarrow> bool) \<Rightarrow> real \<times> real \<Rightarrow> real \<times> real" where
  "sort_ends str_less s = (if str_less (snd s) (fst s) then (snd s, fst s) else s)"

text \<open>
  The body of the last \<open>forEach\<close> of \<open>uni_dir_intersections\<close>: what the segment at
  \<open>index\<close> adds to \<open>count\<close>. The array holds the segment itself and the search has a
  result.
\<close>

definition ahead :: "(real \<times> real) list \<Rightarrow> nat \<Rightarrow> int" where
  "ahead segments index =
     (case binarySearch segments (snd (segments ! index)) fst of
        None \<Rightarrow> 0
      | Some max_ind \<Rightarrow>
          (if max_ind \<le> int index then 0
           else
             (let max_ind1 = (if max_ind \<ge> int (length segments)
                              then int (length segments) - 1 else max_ind);
                  max_ind2 = (if fst (segments ! nat max_ind1) > snd (segments ! index)
                              then max_ind1 - 1 else max_ind1)
              in max_ind2 - int index)))"

definition group_count :: "(real \<Rightarrow> real \<Rightarrow> bool) \<Rightarrow> (real \<times> real) list \<Rightarrow> int" where
  "group_count str_less grp =
     (if length grp = 1 then 0
      else (let segments = sort_key fst (map (sort_ends str_less) grp)
            in sum_list (map (ahead segments) [0 ..< length segments])))"

definition uni_dir_intersections :: "(real \<Rightarrow> real \<Rightarrow> bool) \<Rightarrow> projection list \<Rightarrow> int" where
  "uni_dir_intersections str_less segments =
     (let grouped = fold (\<lambda>segment grouped. group_push grouped (other segment) (projected segment))
                      segments []
      in sum_list (map (\<lambda>(k, grp). group_count str_less grp) grouped))"

definition inverse' :: "segment \<Rightarrow> segment" where
  "inverse' segment = (snd segment, fst segment)"

definition getIntersection :: "segment list \<Rightarrow> segment \<Rightarrow> int" where
  "getIntersection opened segment =
     int (length (filter (\<lambda>hor. snd (fst segment) \<le> snd (fst hor)
                                \<and> snd (fst hor) \<le> snd (snd segment)) opened))"

text \<open>
  The sweep of \<open>perp_intersections\<close>; \<open>opened\<close> is the object \<open>set\<close>, whose keys are the
  segments in it.
\<close>

fun sweep :: "segment list \<Rightarrow> segment list \<Rightarrow> int \<Rightarrow> int" where
  "sweep [] opened count = count"
| "sweep (segment # rest) opened count =
     (if is_vertical segment then sweep rest opened (count + getIntersection opened segment)
      else if inverse' segment \<in> set opened
        then sweep rest (removeAll (inverse' segment) opened) count
      else sweep rest (if segment \<in> set opened then opened else opened @ [segment]) count)"

text \<open>
  The first part of \<open>perp_intersections\<close> fills \<open>set\<close> and drops what it computes;
  \<open>set\<close> is emptied before the sweep. Both sorts with a comparison function keep the
  order of equal elements.
\<close>

definition perp_intersections :: "segment list \<Rightarrow> int" where
  "perp_intersections segments =
     sweep (sort_key (\<lambda>seg. fst (fst seg)) (segments @ map inverse' segments)) [] 0"

definition intersections :: "(real \<Rightarrow> real \<Rightarrow> bool) \<Rightarrow> gnode obj \<Rightarrow> error + real" where
  "intersections str_less geometry =
     (case all_segments geometry geometry of
        Inl e \<Rightarrow> Inl e
      | Inr segments \<Rightarrow>
          (let horizontal_segments = filter is_horizontal segments;
               vertical_segments = filter is_vertical segments;
               his = uni_dir_intersections str_less (map (project 0) horizontal_segments);
               vis = uni_dir_intersections str_less (map (project 1) vertical_segments);
               pis = perp_intersections segments
           in Inr (real_of_int (his + vis + pis))))"

subsection \<open>The cost engine\<close>

text \<open>
  The state of a \<open>TDiagramCost\<close>: the diagram, the geometry captured from it and the
  number of bends. \<open>introduceBreaks\<close> writes \<open>num_branches\<close> first, applies the bends to
  the geometry one key after the other and rebuilds the diagram and the geometry from
  the result. When a step throws, the source has written \<open>num_branches\<close> already; the
  model returns the exception alone.
\<close>

record cost_state =
  tdiagram :: tdiagram
  geometry :: "gnode obj"
  num_branches :: nat

definition TDiagramCost :: "tdiagram \<Rightarrow> error + cost_state" where
  "TDiagramCost td =
     (case getGeometry td of
        Inl e \<Rightarrow> Inl e
      | Inr g \<Rightarrow> Inr \<lparr>tdiagram = td, geometry = g, num_branches = 0\<rparr>)"

definition updateFromGeometry :: "cost_state \<Rightarrow> error + cost_state" where
  "updateFromGeometry st =
     (case sorted_tdiagram (geometry st) of
        Inl e \<Rightarrow> Inl e
      | Inr diagram \<Rightarrow>
          (case getGeometry (TDiagram diagram) of
             Inl e \<Rightarrow> Inl e
           | Inr g \<Rightarrow> Inr (st\<lparr>tdiagram := TDiagram diagram, geometry := g\<rparr>)))"

definition introduceBreaks ::
  "cost_state \<Rightarrow> real obj \<Rightarrow> real list \<Rightarrow> error + (cost_state \<times> real list)" where
  "introduceBreaks st breaks ds =
     (let st1 = st\<lparr>num_branches := length (Object_keys breaks)\<rparr> in
      case introduce_all (geometry st1) breaks ds of
        Inl e \<Rightarrow> Inl e
      | Inr (g, ds') \<Rightarrow>
          (case updateFromGeometry (st1\<lparr>geometry := g\<rparr>) of
             Inl e \<Rightarrow> Inl e
           | Inr st2 \<Rightarrow> Inr (st2, ds')))"

subsection \<open>cost\<close>

record cost_result =
  branches_factor :: real
  intersection_factor :: real
  ar_factor :: real
  total' :: real

text \<open>
  \<open>cost(alpha, beta, gamma, prefered_aspect_ratio)\<close>. \<open>ar\<close> is an exponential and so
  positive: \<open>Math.pow(ar, gamma)\<close> is \<open>ar powr gamma\<close>. A division by zero gives an
  infinity or \<open>NaN\<close> in the source, the outcome \<open>NotFinite\<close> here.
\<close>

definition cost ::
  "(real \<Rightarrow> real \<Rightarrow> bool) \<Rightarrow> cost_state \<Rightarrow> real \<Rightarrow> real \<Rightarrow> real \<Rightarrow> real \<Rightarrow> error + cost_result" where
  "cost str_less st alpha beta gamma prefered_aspect_ratio =
     (let bf = (real (num_branches st))\<^sup>2 in
      case intersections str_less (geometry st) of
        Inl e \<Rightarrow> Inl e
      | Inr isect \<Rightarrow>
          (case (getCanvasWidth (tdiagram st), getCanvasHeight (tdiagram st)) of
             (Inr w, Inr h) \<Rightarrow>
               (if h = 0 then Inl NotFinite
                else
                  (let ar_diagram = w / h in
                   if Math_min ar_diagram prefered_aspect_ratio = 0 then Inl NotFinite
                   else
                     (let ar = exp (Math_max ar_diagram prefered_aspect_ratio
                                    / Math_min ar_diagram prefered_aspect_ratio - 1)
                      in Inr \<lparr>branches_factor = bf, intersection_factor = isect,
                              ar_factor = ar - 1,
                              total' = alpha * bf + beta * isect + ar powr gamma - 1\<rparr>)))
           | (Inl e, _) \<Rightarrow> Inl e
           | (_, Inl e) \<Rightarrow> Inl e))"

section \<open>TDiagramDrawer\<close>

text \<open>A specimen of the population; \<open>cost\<close> is absent until the population is graded.\<close>

record 'd specimen =
  diagram :: 'd
  breaks :: "real obj"
  id' :: nat
  cost' :: "cost_result option"

subsection \<open>performSelection\<close>

text \<open>
  \<open>population.reduce(function(t, x) { return t < x.cost.total ? x.cost.total : t; }, 0)\<close>;
  reading \<open>total\<close> of an absent \<open>cost\<close> throws.
\<close>

fun reduce_cost :: "real \<Rightarrow> 'd specimen list \<Rightarrow> error + real" where
  "reduce_cost t [] = Inr t"
| "reduce_cost t (x # xs) =
     (case cost' x of
        None \<Rightarrow> Inl TypeError
      | Some c \<Rightarrow> reduce_cost (if t < total' c then total' c else t) xs)"

text \<open>The \<open>filter\<close>, with one draw for each specimen in turn.\<close>

fun filter_population ::
  "real \<Rightarrow> 'd specimen list \<Rightarrow> real list \<Rightarrow> error + ('d specimen list \<times> real list)" where
  "filter_population mx [] ds = Inr ([], ds)"
| "filter_population mx (specimen # rest) ds =
     (case cost' specimen of
        None \<Rightarrow> Inl TypeError
      | Some c \<Rightarrow>
          (case Math_random ds of
             None \<Rightarrow> Inl OutOfDraws
           | Some (r, ds') \<Rightarrow>
               (case filter_population mx rest ds' of
                  Inl e \<Rightarrow> Inl e
                | Inr (kept, ds'') \<Rightarrow>
                    Inr (if total' c < r * mx then specimen # kept else kept, ds''))))"

definition performSelection ::
  "'d specimen list \<Rightarrow> real list \<Rightarrow> error + ('d specimen list \<times> real list)" where
  "performSelection population ds =
     (case reduce_cost 0 population of
        Inl e \<Rightarrow> Inl e
      | Inr mx \<Rightarrow> filter_population mx population ds)"

subsection \<open>step: the bend map of a child\<close>

text \<open>
  \<open>for(k in p.breaks) if(Math.random() > 0.5) breaks[k] = p.breaks[k]\<close>, over the
  properties of \<open>p.breaks\<close>.
\<close>

fun inherit :: "real obj \<Rightarrow> real obj \<Rightarrow> real list \<Rightarrow> error + (real obj \<times> real list)" where
  "inherit bs [] ds = Inr (bs, ds)"
| "inherit bs ((k, v) # rest) ds =
     (case Math_random ds of
        None \<Rightarrow> Inl OutOfDraws
      | Some (r, ds') \<Rightarrow> inherit (if r > 1 / 2 then obj_set bs k v else bs) rest ds')"

text \<open>
  The mutation: every property of \<open>breaks\<close> in turn, with a draw for the test and a
  second one for the new value.
\<close>

definition mutated :: "real \<Rightarrow> real \<Rightarrow> real" where
  "mutated v r = Math_min (1 / 10) (Math_max (9 / 10) (v + r * (1 / 10) - 5 / 100))"

fun mutation :: "real \<Rightarrow> real obj \<Rightarrow> real list \<Rightarrow> error + (real obj \<times> real list)" where
  "mutation mutation_prob [] ds = Inr ([], ds)"
| "mutation mutation_prob ((k, v) # rest) ds =
     (case Math_random ds of
        None \<Rightarrow> Inl OutOfDraws
      | Some (r, ds1) \<Rightarrow>
          (if r < mutation_prob then
             (case Math_random ds1 of
                None \<Rightarrow> Inl OutOfDraws
              | Some (r2, ds2) \<Rightarrow>
                  (case mutation mutation_prob rest ds2 of
                     Inl e \<Rightarrow> Inl e
                   | Inr (rest', ds') \<Rightarrow> Inr ((k, mutated v r2) # rest', ds')))
           else
             (case mutation mutation_prob rest ds1 of
                Inl e \<Rightarrow> Inl e
              | Inr (rest', ds') \<Rightarrow> Inr ((k, v) # rest', ds'))))"

text \<open>
  "or removing a branch": \<open>branches\<close> is the array \<open>Object.keys(breaks)\<close> and
  \<open>delete branches[rand_branch]\<close> deletes a property of that array (none, unless the name
  reads as one of its indices). The array is not used again and \<open>breaks\<close> is not
  written: the block returns \<open>breaks\<close> as it found it, after its draws.
\<close>

definition rand_branch :: "real obj \<Rightarrow> real \<Rightarrow> string option" where
  "rand_branch bs r =
     (let branches = Object_keys bs;
          i = Math_floor (r * real (length branches))
      in if 0 \<le> i \<and> i < int (length branches) then Some (branches ! nat i) else None)"

definition remove_branch ::
  "real \<Rightarrow> real obj \<Rightarrow> real list \<Rightarrow> error + (real obj \<times> real list)" where
  "remove_branch probability_of_adding_branch bs ds =
     (case Math_random ds of
        None \<Rightarrow> Inl OutOfDraws
      | Some (r, ds1) \<Rightarrow>
          (if r < probability_of_adding_branch then
             (case Math_random ds1 of
                None \<Rightarrow> Inl OutOfDraws
              | Some (r2, ds2) \<Rightarrow> (let deleted_from_branches = rand_branch bs r2 in Inr (bs, ds2)))
           else Inr (bs, ds1)))"

text \<open>
  "or a new branch": the \<open>do ... while\<close> draws a node until it is no key of \<open>breaks\<close>.
\<close>

fun random_node :: "string list \<Rightarrow> real obj \<Rightarrow> real list \<Rightarrow> error + (string \<times> real list)" where
  "random_node possible_nodes bs [] = Inl OutOfDraws"
| "random_node possible_nodes bs (r # ds) =
     (if 0 \<le> r \<and> r < 1 then
        (let rand_id = Math_floor (r * real (length possible_nodes));
             nd = (if rand_id < int (length possible_nodes) then possible_nodes ! nat rand_id
                   else ''undefined'')
         in if obj_in nd bs then random_node possible_nodes bs ds else Inr (nd, ds))
      else Inl OutOfDraws)"

definition new_branch ::
  "real \<Rightarrow> gnode obj \<Rightarrow> real obj \<Rightarrow> real list \<Rightarrow> error + (real obj \<times> real list)" where
  "new_branch probability_of_adding_branch geom bs ds =
     (case Math_random ds of
        None \<Rightarrow> Inl OutOfDraws
      | Some (r, ds1) \<Rightarrow>
          (if r < probability_of_adding_branch then
             (let possible_nodes = map fst (filter (\<lambda>(k, v). \<not> hidden v) geom) in
              if length (Object_keys bs) < length possible_nodes then
                (case random_node possible_nodes bs ds1 of
                   Inl e \<Rightarrow> Inl e
                 | Inr (nd, ds2) \<Rightarrow>
                     (case Math_random ds2 of
                        None \<Rightarrow> Inl OutOfDraws
                      | Some (r3, ds3) \<Rightarrow> Inr (obj_set bs nd (r3 * (8 / 10) + 1 / 10), ds3)))
              else Inr (bs, ds1))
           else Inr (bs, ds1)))"

text \<open>
  The bend map given to \<open>createRandomSpecimenFromBreaks\<close> for one child of the parents
  \<open>p1\<close> and \<open>p2\<close>. \<open>probability_of_adding_branch\<close> is \<open>mutation_prob\<close>.
\<close>

definition child_breaks ::
  "real \<Rightarrow> gnode obj \<Rightarrow> real obj \<Rightarrow> real obj \<Rightarrow> real list \<Rightarrow> error + (real obj \<times> real list)" where
  "child_breaks mutation_prob geom p1_breaks p2_breaks ds =
     (case inherit [] p1_breaks ds of
        Inl e \<Rightarrow> Inl e
      | Inr (b1, ds1) \<Rightarrow>
          (case inherit b1 p2_breaks ds1 of
             Inl e \<Rightarrow> Inl e
           | Inr (b2, ds2) \<Rightarrow>
               (case mutation mutation_prob b2 ds2 of
                  Inl e \<Rightarrow> Inl e
                | Inr (b3, ds3) \<Rightarrow>
                    (case remove_branch mutation_prob b3 ds3 of
                       Inl e \<Rightarrow> Inl e
                     | Inr (b4, ds4) \<Rightarrow> new_branch mutation_prob geom b4 ds4))))"

section \<open>The placement that the specification describes\<close>

text \<open>The node at the root of a tree, and the placed node at the root of a placed tree.\<close>

fun item :: "tree \<Rightarrow> node" where
  "item (Tree x cs) = x"

fun ptree_placed :: "ptree \<Rightarrow> placed" where
  "ptree_placed (PTree nm p cs) = p"

text \<open>
  What the specification says of a node \<open>c\<close>, placed as \<open>c'\<close>, whose parent is placed as
  \<open>p\<close> and has \<open>n\<close> children: the node is at the coordinates of the parent moved along
  \<open>x\<close> when the parent points right or left and along \<open>y\<close> otherwise, by \<open>delta\<close> in the
  sense of the parent's orientation, \<open>delta\<close> being \<open>branch_at\<close> when the node has one and
  \<open>(seq + 1) / n\<close> times the length of the parent otherwise; and the node points in the
  parent's direction turned by \<open>+1\<close> modulo 4 when its \<open>direction\<close> is \<open>right\<close>, by
  \<open>-1\<close> modulo 4 when it is \<open>left\<close>.
\<close>

definition child_as_claimed :: "placed \<Rightarrow> nat \<Rightarrow> node \<Rightarrow> placed \<Rightarrow> bool" where
  "child_as_claimed p n c c' =
     (let delta = (case branch_at c of
                     Some b \<Rightarrow> b
                   | None \<Rightarrow> (seq c + 1) / real n * length' p);
          sign = (if pointing p = POINTING_RIGHT \<or> pointing p = POINTING_DOWN then 1 else - 1)
      in coordinates c'
           = (if pointing p = POINTING_RIGHT \<or> pointing p = POINTING_LEFT
              then (fst (coordinates p) + delta * sign, snd (coordinates p))
              else (fst (coordinates p), snd (coordinates p) + delta * sign))
         \<and> (direction c = ''right'' \<longrightarrow> pointing c' = (pointing p + 1) mod 4)
         \<and> (direction c = ''left'' \<longrightarrow> pointing c' = (pointing p - 1) mod 4))"

text \<open>
  \<open>placed_as_claimed t pt\<close>: the placed tree \<open>pt\<close> has, under every node, the children of
  that node in \<open>t\<close> in their order, followed by one more (the end of the segment), and
  every node below the root of \<open>t\<close>, at any depth, is placed as the specification says
  with respect to its parent.
\<close>

function placed_as_claimed :: "tree \<Rightarrow> ptree \<Rightarrow> bool" where
  "placed_as_claimed (Tree rt cs) (PTree nm p pcs) =
     (length pcs = Suc (length cs)
      \<and> list_all (\<lambda>(child, pc). ptree_name pc = name (item child)
                     \<and> child_as_claimed p (length cs) (item child) (ptree_placed pc)
                     \<and> placed_as_claimed child pc)
           (zip cs pcs))"
  by pat_completeness auto

termination placed_as_claimed
  by (relation "measure (\<lambda>(t, p). size t)")
     (auto dest!: set_zip_leftD simp: less_Suc_eq_le size_list_estimation')

section \<open>A predicate on placed trees\<close>

text \<open>\<open>ptree_all P t\<close>: every node of the placed tree \<open>t\<close> satisfies \<open>P\<close>.\<close>

fun ptree_all :: "(placed \<Rightarrow> bool) \<Rightarrow> ptree \<Rightarrow> bool" where
  "ptree_all P (PTree nm p cs) = (P p \<and> list_all (ptree_all P) cs)"

section \<open>Example inputs\<close>

text \<open>A graded specimen with the given total cost.\<close>

definition specimen_of_total :: "nat \<Rightarrow> real \<Rightarrow> unit specimen" where
  "specimen_of_total i t =
     \<lparr>diagram = (), breaks = [], id' = i,
      cost' = Some \<lparr>branches_factor = 0, intersection_factor = 0, ar_factor = t, total' = t\<rparr>\<rparr>"

text \<open>
  A root \<open>R\<close> of length 100 with the children \<open>A\<close> (to the right) and \<open>B\<close> (to the
  left), placed by their \<open>seq\<close>.
\<close>

definition example_diagram :: "node list" where
  "example_diagram =
     [\<lparr>parent = [], length' = 100, branch_at = None, hidden = False,
       name = ''R'', direction = ''right'', seq = 0\<rparr>,
      \<lparr>parent = ''R'', length' = 50, branch_at = None, hidden = False,
       name = ''A'', direction = ''right'', seq = 0\<rparr>,
      \<lparr>parent = ''R'', length' = 40, branch_at = None, hidden = False,
       name = ''B'', direction = ''left'', seq = 1\<rparr>]"

text \<open>The same root with both children attached at the distance 50.\<close>

definition tie_diagram :: "node list" where
  "tie_diagram =
     [\<lparr>parent = [], length' = 100, branch_at = None, hidden = False,
       name = ''R'', direction = ''right'', seq = 0\<rparr>,
      \<lparr>parent = ''R'', length' = 50, branch_at = Some 50, hidden = False,
       name = ''A'', direction = ''right'', seq = 0\<rparr>,
      \<lparr>parent = ''R'', length' = 40, branch_at = Some 50, hidden = False,
       name = ''B'', direction = ''left'', seq = 1\<rparr>]"

text \<open>The same root with \<open>A\<close> attached at the distance 80 and, after it, \<open>B\<close> at 20.\<close>

definition unsorted_diagram :: "node list" where
  "unsorted_diagram =
     [\<lparr>parent = [], length' = 100, branch_at = None, hidden = False,
       name = ''R'', direction = ''right'', seq = 0\<rparr>,
      \<lparr>parent = ''R'', length' = 50, branch_at = Some 80, hidden = False,
       name = ''A'', direction = ''right'', seq = 0\<rparr>,
      \<lparr>parent = ''R'', length' = 40, branch_at = Some 20, hidden = False,
       name = ''B'', direction = ''left'', seq = 1\<rparr>]"

text \<open>A root \<open>R\<close>, its child \<open>A\<close> to the left and the child \<open>B\<close> of \<open>A\<close> to the left.\<close>

definition turn_diagram :: "node list" where
  "turn_diagram =
     [\<lparr>parent = [], length' = 20, branch_at = None, hidden = False,
       name = ''R'', direction = ''right'', seq = 0\<rparr>,
      \<lparr>parent = ''R'', length' = 10, branch_at = None, hidden = False,
       name = ''A'', direction = ''left'', seq = 0\<rparr>,
      \<lparr>parent = ''A'', length' = 5, branch_at = None, hidden = False,
       name = ''B'', direction = ''left'', seq = 0\<rparr>]"

text \<open>The geometry of \<open>example_diagram\<close>, and that geometry with \<open>R\<close> broken at 0.6.\<close>

definition example_geometry :: "gnode obj" where
  "example_geometry =
     [(''R'', \<lparr>parent = [], length' = 100, branch_at = None, hidden = False,
               coordinates = (0, 0), pointing = 1,
               children = [Some ''A'', Some ''B'', Some ''R_end'']\<rparr>),
      (''A'', \<lparr>parent = ''R'', length' = 50, branch_at = None, hidden = False,
               coordinates = (50, 0), pointing = 2, children = [Some ''A_end'']\<rparr>),
      (''A_end'', \<lparr>parent = ''A'', length' = 0, branch_at = Some 50, hidden = True,
                   coordinates = (50, 50), pointing = 2, children = []\<rparr>),
      (''B'', \<lparr>parent = ''R'', length' = 40, branch_at = None, hidden = False,
               coordinates = (100, 0), pointing = 0, children = [Some ''B_end'']\<rparr>),
      (''B_end'', \<lparr>parent = ''B'', length' = 0, branch_at = Some 40, hidden = True,
                   coordinates = (100, - 40), pointing = 0, children = []\<rparr>),
      (''R_end'', \<lparr>parent = ''R'', length' = 0, branch_at = Some 100, hidden = True,
                   coordinates = (100, 0), pointing = 1, children = []\<rparr>)]"


text \<open>The geometry of \<open>tie_diagram\<close>, and that geometry with \<open>R\<close> broken at 0.5.\<close>

definition tie_geometry :: "gnode obj" where
  "tie_geometry =
     [(''R'', \<lparr>parent = [], length' = 100, branch_at = None, hidden = False,
               coordinates = (0, 0), pointing = 1,
               children = [Some ''A'', Some ''B'', Some ''R_end'']\<rparr>),
      (''A'', \<lparr>parent = ''R'', length' = 50, branch_at = Some 50, hidden = False,
               coordinates = (50, 0), pointing = 2, children = [Some ''A_end'']\<rparr>),
      (''A_end'', \<lparr>parent = ''A'', length' = 0, branch_at = Some 50, hidden = True,
                   coordinates = (50, 50), pointing = 2, children = []\<rparr>),
      (''B'', \<lparr>parent = ''R'', length' = 40, branch_at = Some 50, hidden = False,
               coordinates = (50, 0), pointing = 0, children = [Some ''B_end'']\<rparr>),
      (''B_end'', \<lparr>parent = ''B'', length' = 0, branch_at = Some 40, hidden = True,
                   coordinates = (50, - 40), pointing = 0, children = []\<rparr>),
      (''R_end'', \<lparr>parent = ''R'', length' = 0, branch_at = Some 100, hidden = True,
                   coordinates = (100, 0), pointing = 1, children = []\<rparr>)]"


text \<open>
  The geometry of \<open>turn_diagram\<close>, and the geometry that \<open>introduceBreaks\<close> leaves
  with the empty bend map.
\<close>

definition turn_geometry :: "gnode obj" where
  "turn_geometry =
     [(''R'', \<lparr>parent = [], length' = 20, branch_at = None, hidden = False,
               coordinates = (0, 0), pointing = 1, children = [Some ''A'', Some ''R_end'']\<rparr>),
      (''A'', \<lparr>parent = ''R'', length' = 10, branch_at = None, hidden = False,
               coordinates = (20, 0), pointing = 0, children = [Some ''B'', Some ''A_end'']\<rparr>),
      (''B'', \<lparr>parent = ''A'', length' = 5, branch_at = None, hidden = False,
               coordinates = (20, - 10), pointing = 3, children = [Some ''B_end'']\<rparr>),
      (''B_end'', \<lparr>parent = ''B'', length' = 0, branch_at = Some 5, hidden = True,
                   coordinates = (15, - 10), pointing = 3, children = []\<rparr>),
      (''A_end'', \<lparr>parent = ''A'', length' = 0, branch_at = Some 10, hidden = True,
                   coordinates = (20, - 10), pointing = 0, children = []\<rparr>),
      (''R_end'', \<lparr>parent = ''R'', length' = 0, branch_at = Some 20, hidden = True,
                   coordinates = (20, 0), pointing = 1, children = []\<rparr>)]"

definition turn_rebuilt :: "gnode obj" where
  "turn_rebuilt =
     [(''R'', \<lparr>parent = [], length' = 20, branch_at = None, hidden = False,
               coordinates = (0, 0), pointing = 1, children = [Some ''A'', Some ''R_end'']\<rparr>),
      (''A'', \<lparr>parent = ''R'', length' = 10, branch_at = None, hidden = False,
               coordinates = (20, 0), pointing = 0, children = [Some ''B'', Some ''A_end'']\<rparr>),
      (''B'', \<lparr>parent = ''A'', length' = 5, branch_at = None, hidden = False,
               coordinates = (20, - 10), pointing = 1, children = [Some ''B_end'']\<rparr>),
      (''B_end'', \<lparr>parent = ''B'', length' = 0, branch_at = Some 5, hidden = True,
                   coordinates = (25, - 10), pointing = 1, children = []\<rparr>),
      (''A_end'', \<lparr>parent = ''A'', length' = 0, branch_at = Some 10, hidden = True,
                   coordinates = (20, - 10), pointing = 0, children = []\<rparr>),
      (''R_end'', \<lparr>parent = ''R'', length' = 0, branch_at = Some 20, hidden = True,
                   coordinates = (20, 0), pointing = 1, children = []\<rparr>)]"

text \<open>
  The tree of \<open>turn_diagram\<close>, that tree with its coordinates, and the same with \<open>B\<close>,
  two levels below the root, put where a right turn would put it.
\<close>

definition turn_tree :: tree where
  "turn_tree =
     Tree \<lparr>parent = [], length' = 20, branch_at = None, hidden = False,
           name = ''R'', direction = ''right'', seq = 0\<rparr>
       [Tree \<lparr>parent = ''R'', length' = 10, branch_at = None, hidden = False,
              name = ''A'', direction = ''left'', seq = 0\<rparr>
          [Tree \<lparr>parent = ''A'', length' = 5, branch_at = None, hidden = False,
                 name = ''B'', direction = ''left'', seq = 0\<rparr> []]]"


definition turn_misplaced :: ptree where
  "turn_misplaced =
     PTree ''R''
       \<lparr>parent = [], length' = 20, branch_at = None, hidden = False,
        coordinates = (0, 0), pointing = 1\<rparr>
       [PTree ''A''
          \<lparr>parent = ''R'', length' = 10, branch_at = None, hidden = False,
           coordinates = (20, 0), pointing = 0\<rparr>
          [PTree ''B''
             \<lparr>parent = ''A'', length' = 5, branch_at = None, hidden = False,
              coordinates = (20, - 10), pointing = 1\<rparr>
             [PTree ''B_end''
                \<lparr>parent = ''B'', length' = 0, branch_at = Some 5, hidden = True,
                 coordinates = (25, - 10), pointing = 1\<rparr> []],
           PTree ''A_end''
             \<lparr>parent = ''A'', length' = 0, branch_at = Some 10, hidden = True,
              coordinates = (20, - 10), pointing = 0\<rparr> []],
        PTree ''R_end''
          \<lparr>parent = ''R'', length' = 0, branch_at = Some 20, hidden = True,
           coordinates = (20, 0), pointing = 1\<rparr> []]"

text \<open>The tree of \<open>example_diagram\<close> with its coordinates.\<close>

definition example_placed :: ptree where
  "example_placed =
     PTree ''R''
       \<lparr>parent = [], length' = 100, branch_at = None, hidden = False,
        coordinates = (0, 0), pointing = 1\<rparr>
       [PTree ''A''
          \<lparr>parent = ''R'', length' = 50, branch_at = None, hidden = False,
           coordinates = (50, 0), pointing = 2\<rparr>
          [PTree ''A_end''
             \<lparr>parent = ''A'', length' = 0, branch_at = Some 50, hidden = True,
              coordinates = (50, 50), pointing = 2\<rparr> []],
        PTree ''B''
          \<lparr>parent = ''R'', length' = 40, branch_at = None, hidden = False,
           coordinates = (100, 0), pointing = 0\<rparr>
          [PTree ''B_end''
             \<lparr>parent = ''B'', length' = 0, branch_at = Some 40, hidden = True,
              coordinates = (100, - 40), pointing = 0\<rparr> []],
        PTree ''R_end''
          \<lparr>parent = ''R'', length' = 0, branch_at = Some 100, hidden = True,
           coordinates = (100, 0), pointing = 1\<rparr> []]"

text \<open>
  The order of strings by their characters, and with it the order in which \<open>sort\<close>
  without a comparison function puts two integers: that of their decimal representations.
  The coordinates of the examples are integers.
\<close>

fun string_less :: "string \<Rightarrow> string \<Rightarrow> bool" where
  "string_less [] [] = False"
| "string_less [] (d # t) = True"
| "string_less (c # s) [] = False"
| "string_less (c # s) (d # t) =
     ((of_char c :: nat) < of_char d \<or> (c = d \<and> string_less s t))"

definition show_int :: "int \<Rightarrow> string" where
  "show_int i = (if i < 0 then ''-'' @ show_nat (nat (- i)) else show_nat (nat i))"

definition decimal_less :: "real \<Rightarrow> real \<Rightarrow> bool" where
  "decimal_less a b = string_less (show_int \<lfloor>a\<rfloor>) (show_int \<lfloor>b\<rfloor>)"

text \<open>The cost engine of \<open>example_diagram\<close>, as \<open>TDiagramCost\<close> makes it.\<close>

definition example_state :: cost_state where
  "example_state =
     \<lparr>tdiagram = TDiagram example_diagram, geometry = example_geometry, num_branches = 0\<rparr>"

text \<open>The cost engine of \<open>turn_diagram\<close>, as \<open>TDiagramCost\<close> makes it.\<close>

definition turn_state :: cost_state where
  "turn_state =
     \<lparr>tdiagram = TDiagram turn_diagram, geometry = turn_geometry, num_branches = 0\<rparr>"

section \<open>The example inputs, evaluated\<close>

lemmas eval_defs =
  build_tree_def make_nodes_def obj_get_def obj_delete_def computeCoord_def coord_add_def
  getCoordToUpdate_def getDirectionToUpdate_def end_seg_def angle_def jsmod_def extendObjs_def
  TDiagram_def TDiagramCost_def getGeometry_def introduceBreaks_def updateFromGeometry_def
  sorted_tdiagram_def walk_up.simps endsWith_def indexOf_def derive_node_def
  introduceBreak_def child_distance_def child_key_def splice'_def break_node_def
  binarySearch_def search_loop.simps Math_round_def show_nat.simps obj_in_def
  Object_keys_def Let_def

lemma example_geometry_eq: "getGeometry (TDiagram example_diagram) = Inr example_geometry"
  by (simp add: eval_defs example_diagram_def example_geometry_def)

lemma tie_geometry_eq: "getGeometry (TDiagram tie_diagram) = Inr tie_geometry"
  by (simp add: eval_defs tie_diagram_def tie_geometry_def)

lemma turn_geometry_eq: "getGeometry (TDiagram turn_diagram) = Inr turn_geometry"
  by (simp add: eval_defs turn_diagram_def turn_geometry_def)



section \<open>Properties of binarySearch\<close>

lemma sorted_map_nth_mono:
  assumes "sorted (map tr arr)" "i \<le> j" "j < length arr"
  shows "tr (arr ! i) \<le> tr (arr ! j)"
  using sorted_nth_mono [OF assms(1), of i j] assms(2,3) by simp

lemma search_loop_inv:
  assumes "sorted (map tr arr)"
    and "0 \<le> m" and "M < int (length arr)" and "m \<le> M + 1"
    and "\<forall>j. 0 \<le> j \<and> j < m \<longrightarrow> tr (arr ! nat j) < x"
    and "\<forall>j. M < j \<and> j < int (length arr) \<longrightarrow> x < tr (arr ! nat j)"
    and "case mid of None \<Rightarrow> m \<le> M
         | Some k \<Rightarrow> (k = m - 1 \<and> 0 \<le> k \<and> m = M + 1) \<or> (k = M + 1 \<and> k < int (length arr) \<and> m = M + 1) \<or> m \<le> M"
  shows "case search_loop tr arr x m M mid of
           Return i \<Rightarrow> 0 \<le> i \<and> i < int (length arr) \<and> tr (arr ! nat i) = x
         | Fallthrough None \<Rightarrow> False
         | Fallthrough (Some k) \<Rightarrow>
             (\<exists>p. 0 \<le> p \<and> p \<le> int (length arr)
                \<and> (\<forall>j. 0 \<le> j \<and> j < p \<longrightarrow> tr (arr ! nat j) < x)
                \<and> (\<forall>j. p \<le> j \<and> j < int (length arr) \<longrightarrow> x < tr (arr ! nat j))
                \<and> ((k = p - 1 \<and> 0 \<le> k) \<or> (k = p \<and> k < int (length arr))))"
  using assms
proof (induction tr arr x m M mid rule: search_loop.induct)
  case (1 tr arr x m M mid)
  show ?case
  proof (cases "m \<le> M")
    case False
    with "1.prems" have mM: "m = M + 1" by simp
    from False "1.prems"(7) obtain k where k: "mid = Some k"
      and kk: "(k = m - 1 \<and> 0 \<le> k) \<or> (k = M + 1 \<and> k < int (length arr))"
      by (cases mid) auto
    have "\<exists>p. 0 \<le> p \<and> p \<le> int (length arr)
                \<and> (\<forall>j. 0 \<le> j \<and> j < p \<longrightarrow> tr (arr ! nat j) < x)
                \<and> (\<forall>j. p \<le> j \<and> j < int (length arr) \<longrightarrow> x < tr (arr ! nat j))
                \<and> ((k = p - 1 \<and> 0 \<le> k) \<or> (k = p \<and> k < int (length arr)))"
      apply (rule exI [of _ m])
      using "1.prems"(2,3,5,6) mM kk by auto
    with False k show ?thesis
      by (simp add: search_loop.simps [of tr arr x m M])
  next
    case True
    define mid' where "mid' = m + Math_round (real_of_int (M - m) / 2)"
    have mid'_eq: "mid' = m + (M - m + 1) div 2"
      unfolding mid'_def Math_round_half by simp
    have unfold: "search_loop tr arr x m M mid =
        (if tr (arr ! nat mid') - x = 0 then Return mid'
         else if tr (arr ! nat mid') - x < 0 then search_loop tr arr x (mid' + 1) M (Some mid')
         else search_loop tr arr x m (mid' - 1) (Some mid'))"
      using True by (subst search_loop.simps) (simp only: mid'_def Let_def if_True)
    have lo: "m \<le> mid'" and hi: "mid' \<le> M"
      using True by (auto simp: mid'_eq)
    have inb: "0 \<le> mid'" "mid' < int (length arr)"
      using lo hi "1.prems"(2,3) by auto
    consider (eq) "tr (arr ! nat mid') - x = 0"
      | (lt) "tr (arr ! nat mid') - x \<noteq> 0" "tr (arr ! nat mid') - x < 0"
      | (gt) "tr (arr ! nat mid') - x \<noteq> 0" "\<not> tr (arr ! nat mid') - x < 0"
      by blast
    then show ?thesis
    proof cases
      case eq
      then show ?thesis
        using inb by (simp add: unfold)
    next
      case lt
      have below: "\<forall>j. 0 \<le> j \<and> j < mid' + 1 \<longrightarrow> tr (arr ! nat j) < x"
      proof (intro allI impI)
        fix j assume j: "0 \<le> j \<and> j < mid' + 1"
        then have "nat j \<le> nat mid'" by linarith
        moreover have "nat mid' < length arr" using inb by simp
        ultimately have "tr (arr ! nat j) \<le> tr (arr ! nat mid')"
          using sorted_map_nth_mono [OF "1.prems"(1)] by blast
        with lt show "tr (arr ! nat j) < x" by simp
      qed
      have IH: "case search_loop tr arr x (mid' + 1) M (Some mid') of
           Return i \<Rightarrow> 0 \<le> i \<and> i < int (length arr) \<and> tr (arr ! nat i) = x
         | Fallthrough None \<Rightarrow> False
         | Fallthrough (Some k) \<Rightarrow>
             (\<exists>p. 0 \<le> p \<and> p \<le> int (length arr)
                \<and> (\<forall>j. 0 \<le> j \<and> j < p \<longrightarrow> tr (arr ! nat j) < x)
                \<and> (\<forall>j. p \<le> j \<and> j < int (length arr) \<longrightarrow> x < tr (arr ! nat j))
                \<and> ((k = p - 1 \<and> 0 \<le> k) \<or> (k = p \<and> k < int (length arr))))"
        apply (rule "1.IH"(1) [OF True mid'_def lt(1) lt(2) "1.prems"(1)])
        using inb hi "1.prems"(3,6) below by auto
      show ?thesis
        using lt IH by (simp add: unfold)
    next
      case gt
      then have gtx: "x < tr (arr ! nat mid')" by simp
      have above: "\<forall>j. mid' - 1 < j \<and> j < int (length arr) \<longrightarrow> x < tr (arr ! nat j)"
      proof (intro allI impI)
        fix j assume j: "mid' - 1 < j \<and> j < int (length arr)"
        then have "nat mid' \<le> nat j" "nat j < length arr" using inb by linarith+
        then have "tr (arr ! nat mid') \<le> tr (arr ! nat j)"
          using sorted_map_nth_mono [OF "1.prems"(1)] by blast
        with gtx show "x < tr (arr ! nat j)" by simp
      qed
      have IH: "case search_loop tr arr x m (mid' - 1) (Some mid') of
           Return i \<Rightarrow> 0 \<le> i \<and> i < int (length arr) \<and> tr (arr ! nat i) = x
         | Fallthrough None \<Rightarrow> False
         | Fallthrough (Some k) \<Rightarrow>
             (\<exists>p. 0 \<le> p \<and> p \<le> int (length arr)
                \<and> (\<forall>j. 0 \<le> j \<and> j < p \<longrightarrow> tr (arr ! nat j) < x)
                \<and> (\<forall>j. p \<le> j \<and> j < int (length arr) \<longrightarrow> x < tr (arr ! nat j))
                \<and> ((k = p - 1 \<and> 0 \<le> k) \<or> (k = p \<and> k < int (length arr))))"
        apply (rule "1.IH"(2) [OF True mid'_def gt(1) gt(2) "1.prems"(1)])
        using inb lo "1.prems"(2,5) above by auto
      show ?thesis
        using gt IH by (simp add: unfold)
    qed
  qed
qed


lemma binarySearch_sorted:
  assumes "arr \<noteq> []" and "sorted (map tr arr)"
  shows "\<exists>i. binarySearch arr x tr = Some i \<and> 0 \<le> i \<and> i \<le> int (length arr)
           \<and> ((i < int (length arr) \<and> tr (arr ! nat i) = x)
              \<or> ((\<forall>j. 0 \<le> j \<and> j < i \<longrightarrow> tr (arr ! nat j) < x)
                 \<and> (\<forall>j. i \<le> j \<and> j < int (length arr) \<longrightarrow> x < tr (arr ! nat j))))"
proof -
  let ?n = "int (length arr)"
  from assms(1) have n: "0 < ?n" by simp
  have inv: "case search_loop tr arr x 0 (?n - 1) None of
           Return i \<Rightarrow> 0 \<le> i \<and> i < ?n \<and> tr (arr ! nat i) = x
         | Fallthrough None \<Rightarrow> False
         | Fallthrough (Some k) \<Rightarrow>
             (\<exists>p. 0 \<le> p \<and> p \<le> ?n
                \<and> (\<forall>j. 0 \<le> j \<and> j < p \<longrightarrow> tr (arr ! nat j) < x)
                \<and> (\<forall>j. p \<le> j \<and> j < ?n \<longrightarrow> x < tr (arr ! nat j))
                \<and> ((k = p - 1 \<and> 0 \<le> k) \<or> (k = p \<and> k < ?n)))"
    by (rule search_loop_inv [OF assms(2)]) (use n in auto)
  show ?thesis
  proof (cases "search_loop tr arr x 0 (?n - 1) None")
    case (Return i)
    with inv show ?thesis by (simp add: binarySearch_def)
  next
    case (Fallthrough mid)
    with inv obtain k where k: "mid = Some k" by (cases mid) auto
    with inv Fallthrough obtain p where p: "0 \<le> p" "p \<le> ?n"
      and lo: "\<forall>j. 0 \<le> j \<and> j < p \<longrightarrow> tr (arr ! nat j) < x"
      and hi: "\<forall>j. p \<le> j \<and> j < ?n \<longrightarrow> x < tr (arr ! nat j)"
      and kp: "(k = p - 1 \<and> 0 \<le> k) \<or> (k = p \<and> k < ?n)"
      by auto
    have clamp: "min (max 0 k) (?n - 1) = k" using kp p by auto
    have bs: "binarySearch arr x tr =
        (if 0 < tr (arr ! nat (max 0 (k - 1))) - x then Some (max 0 (k - 1))
         else if 0 < tr (arr ! nat k) - x then Some k else Some (k + 1))"
      unfolding binarySearch_def Fallthrough k
      by (simp only: loop_exit.case option.case Let_def clamp)
    have res: "binarySearch arr x tr = Some p"
    proof -
      from kp show ?thesis
      proof
        assume a: "k = p - 1 \<and> 0 \<le> k"
        then have "0 \<le> max 0 (k - 1) \<and> max 0 (k - 1) < p" "0 \<le> k \<and> k < p" by auto
        with lo have "tr (arr ! nat (max 0 (k - 1))) < x" "tr (arr ! nat k) < x" by blast+
        with a show ?thesis
          unfolding bs by simp
      next
        assume a: "k = p \<and> k < ?n"
        then have gt: "x < tr (arr ! nat k)" using hi p by auto
        show ?thesis
        proof (cases "p = 0")
          case True
          with a gt show ?thesis
            unfolding bs by simp
        next
          case False
          with p have "0 \<le> p - 1 \<and> p - 1 < p" by auto
          with lo have "tr (arr ! nat (p - 1)) < x" by blast
          moreover have "max 0 (k - 1) = p - 1" using a False p by auto
          ultimately show ?thesis using a gt
            unfolding bs by simp
        qed
      qed
    qed
    show ?thesis
      using res p lo hi by auto
  qed
qed

text \<open>
  Claim C10. On a non-empty array whose images under \<open>trans\<close> are in non-decreasing
  order, \<open>binarySearch\<close> returns an index \<open>i\<close> from 0 to the length of the array.
  Either \<open>i\<close> is an index of the array and \<open>trans(arr[i])\<close> is the smallest image that
  is at least \<open>x\<close>, or \<open>i\<close> is the length of the array and every image is below \<open>x\<close>.
\<close>

theorem binarySearch_smallest_geq:
  assumes "arr \<noteq> []" and "sorted (map tr arr)"
  shows "\<exists>i. binarySearch arr x tr = Some (int i) \<and> i \<le> length arr
           \<and> ((i < length arr \<and> x \<le> tr (arr ! i)
                 \<and> (\<forall>j < length arr. x \<le> tr (arr ! j) \<longrightarrow> tr (arr ! i) \<le> tr (arr ! j)))
               \<or> (i = length arr \<and> (\<forall>j < length arr. tr (arr ! j) < x)))"
proof -
  from binarySearch_sorted [OF assms, of x] obtain i where
    res: "binarySearch arr x tr = Some i" and i: "0 \<le> i" "i \<le> int (length arr)"
    and alt: "(i < int (length arr) \<and> tr (arr ! nat i) = x)
              \<or> ((\<forall>j. 0 \<le> j \<and> j < i \<longrightarrow> tr (arr ! nat j) < x)
                 \<and> (\<forall>j. i \<le> j \<and> j < int (length arr) \<longrightarrow> x < tr (arr ! nat j)))"
    by blast
  let ?i = "nat i"
  have ii: "int ?i = i" "?i \<le> length arr" using i by auto
  from alt have "(?i < length arr \<and> x \<le> tr (arr ! ?i)
                 \<and> (\<forall>j < length arr. x \<le> tr (arr ! j) \<longrightarrow> tr (arr ! ?i) \<le> tr (arr ! j)))
               \<or> (?i = length arr \<and> (\<forall>j < length arr. tr (arr ! j) < x))"
  proof
    assume a: "i < int (length arr) \<and> tr (arr ! nat i) = x"
    then have "?i < length arr" using i by linarith
    with a show ?thesis by simp
  next
    assume ins: "(\<forall>j. 0 \<le> j \<and> j < i \<longrightarrow> tr (arr ! nat j) < x)
                 \<and> (\<forall>j. i \<le> j \<and> j < int (length arr) \<longrightarrow> x < tr (arr ! nat j))"
    have below: "tr (arr ! j) < x" if "j < ?i" for j
    proof -
      from that have "0 \<le> int j \<and> int j < i" by linarith
      with ins have "tr (arr ! nat (int j)) < x" by blast
      then show ?thesis by simp
    qed
    show ?thesis
    proof (cases "?i < length arr")
      case True
      then have "i \<le> i \<and> i < int (length arr)" by linarith
      with ins have gt: "x < tr (arr ! ?i)" by blast
      have "tr (arr ! ?i) \<le> tr (arr ! j)" if "j < length arr" "x \<le> tr (arr ! j)" for j
      proof -
        have "\<not> j < ?i" using below [of j] that(2) by auto
        then have "?i \<le> j" by simp
        then show ?thesis using sorted_map_nth_mono [OF assms(2)] that(1) by blast
      qed
      with True gt show ?thesis by auto
    next
      case False
      with ii have "?i = length arr" by simp
      with below show ?thesis by auto
    qed
  qed
  with res ii show ?thesis by metis
qed

theorem binarySearch_smallest_geq_witness:
  "binarySearch [0, 1, 2, 3, 4 :: real] (1 / 2) (\<lambda>v. v) = Some 1
   \<and> binarySearch [0, 1, 2, 3, 4 :: real] 100 (\<lambda>v. v) = Some 5"
proof -
  have a: "[0, 1, 2, 3, 4 :: real] \<noteq> []" "sorted (map (\<lambda>v. v) [0, 1, 2, 3, 4 :: real])"
    by simp_all
  from binarySearch_smallest_geq [OF a, of "1 / 2"] binarySearch_smallest_geq [OF a, of 100]
  have "\<exists>i. binarySearch [0, 1, 2, 3, 4 :: real] (1 / 2) (\<lambda>v. v) = Some (int i)"
    and "\<exists>i. binarySearch [0, 1, 2, 3, 4 :: real] 100 (\<lambda>v. v) = Some (int i)"
    by blast+
  then show ?thesis
    by (simp add: binarySearch_def search_loop.simps Math_round_def)
qed

section \<open>Properties of performSelection\<close>

lemma reduce_cost_Max:
  assumes "\<forall>s\<in>set population. cost' s \<noteq> None"
  shows "reduce_cost t population
           = Inr (Max (insert t ((\<lambda>s. total' (the (cost' s))) ` set population)))"
  using assms
proof (induction population arbitrary: t)
  case Nil
  then show ?case by simp
next
  case (Cons x xs)
  let ?f = "\<lambda>s. total' (the (cost' s))"
  from Cons.prems obtain c where c: "cost' x = Some c" by auto
  define B where "B = insert (total' c) (?f ` set xs)"
  have B: "finite B" "B \<noteq> {}" "total' c \<in> B" by (simp_all add: B_def)
  have cB: "total' c \<le> Max B" using B by simp
  have "Max (insert (if t < total' c then total' c else t) (?f ` set xs)) = Max (insert t B)"
  proof (cases "t < total' c")
    case True
    then have "t \<le> Max B" using cB by linarith
    then have "Max (insert t B) = Max B"
      using B by (simp add: max_absorb2)
    with True show ?thesis by (simp add: B_def)
  next
    case False
    define A where "A = insert t (?f ` set xs)"
    have A: "finite A" "A \<noteq> {}" "t \<in> A" by (simp_all add: A_def)
    have "total' c \<le> Max A" using False A Max_ge [of A t] by linarith
    then have "Max (insert (total' c) A) = Max A"
      using A by (simp add: max_absorb2)
    moreover have "insert t B = insert (total' c) A"
      by (auto simp: A_def B_def)
    ultimately show ?thesis using False by (simp add: A_def)
  qed
  then have "Max (insert (if t < total' c then total' c else t) (?f ` set xs))
          = Max (insert t (insert (total' c) (?f ` set xs)))"
    by (simp add: B_def)
  moreover have "reduce_cost (if t < total' c then total' c else t) xs
      = Inr (Max (insert (if t < total' c then total' c else t) (?f ` set xs)))"
    using Cons.IH Cons.prems by simp
  ultimately show ?case
    using c by simp
qed

lemma filter_population_zip:
  assumes "\<forall>s\<in>set population. cost' s \<noteq> None"
    and "length population \<le> length ds"
    and "\<forall>d\<in>set (take (length population) ds). 0 \<le> d \<and> d < 1"
  shows "filter_population mx population ds
           = Inr (map fst (filter (\<lambda>(s, d). total' (the (cost' s)) < d * mx) (zip population ds)),
                  drop (length population) ds)"
  using assms
proof (induction population arbitrary: ds)
  case Nil
  then show ?case by simp
next
  case (Cons x xs)
  from Cons.prems(2) obtain d ds' where ds: "ds = d # ds'" by (cases ds) auto
  from Cons.prems(1) obtain c where c: "cost' x = Some c" by auto
  from Cons.prems(3) ds have d: "0 \<le> d \<and> d < 1" by simp
  have IH: "filter_population mx xs ds'
           = Inr (map fst (filter (\<lambda>(s, d). total' (the (cost' s)) < d * mx) (zip xs ds')),
                  drop (length xs) ds')"
    using Cons.IH [of ds'] Cons.prems ds by simp
  show ?case
    using c d IH by (simp add: ds)
qed

lemma performSelection_filter:
  assumes "\<forall>s\<in>set population. cost' s \<noteq> None"
    and "length population \<le> length ds"
    and "\<forall>d\<in>set (take (length population) ds). 0 \<le> d \<and> d < 1"
  shows "performSelection population ds
           = Inr (map fst (filter (\<lambda>(s, d). total' (the (cost' s))
                                     < d * Max (insert 0 ((\<lambda>s. total' (the (cost' s))) ` set population)))
                             (zip population ds)),
                  drop (length population) ds)"
  by (simp add: performSelection_def reduce_cost_Max [OF assms(1)]
        filter_population_zip [OF assms])

text \<open>
  Claim C5. On a graded population, with draws \<open>d_i\<close> from 0 (inclusive) to 1 (exclusive),
  one for each specimen, \<open>performSelection\<close> keeps exactly the specimens whose
  \<open>cost.total\<close> is less than \<open>d_i * maxCost\<close>, in their order; \<open>maxCost\<close> is the
  largest total of the population, and 0 when no total is above 0. With the totals 1, 5
  and 10 and the draws 0.5, 0.6 and 0.99 the first two specimens are kept.
\<close>

theorem performSelection_retains:
  assumes "\<forall>s\<in>set population. cost' s \<noteq> None"
    and "length population \<le> length ds"
    and "\<forall>d\<in>set (take (length population) ds). 0 \<le> d \<and> d < 1"
  shows "performSelection population ds
           = Inr (map fst (filter (\<lambda>(s, d). total' (the (cost' s))
                                     < d * Max (insert 0 ((\<lambda>s. total' (the (cost' s))) ` set population)))
                             (zip population ds)),
                  drop (length population) ds)"
  using assms by (rule performSelection_filter)

theorem performSelection_retains_witness:
  "performSelection [specimen_of_total 0 1, specimen_of_total 1 5, specimen_of_total 2 10]
       [1 / 2, 3 / 5, 99 / 100]
     = Inr ([specimen_of_total 0 1, specimen_of_total 1 5], [])"
  using performSelection_retains
          [of "[specimen_of_total 0 1, specimen_of_total 1 5, specimen_of_total 2 10]"
              "[1 / 2, 3 / 5, 99 / 100]"]
  by (simp add: specimen_of_total_def)

section \<open>Properties of the breeding step\<close>

lemma Math_clamp: "Math_min (1 / 10) (Math_max (9 / 10) x) = 1 / 10"
  by (simp add: Math_min_def Math_max_def)

lemma mutation_keys_values:
  "mutation mutation_prob bs ds = Inr (bs', ds') \<Longrightarrow>
     map fst bs' = map fst bs
     \<and> (\<forall>i < length bs. snd (bs' ! i) = snd (bs ! i) \<or> snd (bs' ! i) = 1 / 10)"
proof (induction bs arbitrary: ds bs' ds')
  case Nil
  then show ?case by simp
next
  case (Cons kv rest)
  obtain k v where kv: "kv = (k, v)" by (cases kv)
  from Cons.prems obtain r ds1 where r: "Math_random ds = Some (r, ds1)"
    by (auto simp: kv split: option.splits)
  show ?case
  proof (cases "r < mutation_prob")
    case True
    with Cons.prems r obtain r2 ds2 rest' where
      r2: "Math_random ds1 = Some (r2, ds2)"
      and rec: "mutation mutation_prob rest ds2 = Inr (rest', ds')"
      and bs': "bs' = (k, mutated v r2) # rest'"
      by (auto simp: kv split: option.splits sum.splits)
    from Cons.IH [OF rec] have IH: "map fst rest' = map fst rest"
      "\<forall>i < length rest. snd (rest' ! i) = snd (rest ! i) \<or> snd (rest' ! i) = 1 / 10"
      by simp_all
    have "snd (bs' ! i) = snd ((kv # rest) ! i) \<or> snd (bs' ! i) = 1 / 10"
      if "i < length (kv # rest)" for i
      using that IH(2) by (cases i) (simp_all add: bs' kv mutated_def Math_clamp)
    with IH(1) show ?thesis by (simp add: bs' kv)
  next
    case False
    with Cons.prems r obtain rest' where
      rec: "mutation mutation_prob rest ds1 = Inr (rest', ds')"
      and bs': "bs' = (k, v) # rest'"
      by (auto simp: kv split: sum.splits)
    from Cons.IH [OF rec] have IH: "map fst rest' = map fst rest"
      "\<forall>i < length rest. snd (rest' ! i) = snd (rest ! i) \<or> snd (rest' ! i) = 1 / 10"
      by simp_all
    have "snd (bs' ! i) = snd ((kv # rest) ! i) \<or> snd (bs' ! i) = 1 / 10"
      if "i < length (kv # rest)" for i
      using that IH(2) by (cases i) (simp_all add: bs' kv)
    with IH(1) show ?thesis by (simp add: bs' kv)
  qed
qed

text \<open>
  Claim C8. \<open>Math.min(0.1, Math.max(0.9, x))\<close> is 0.1 for every real \<open>x\<close>. So the
  mutation sets a fraction whose test draw is below \<open>mutation_prob\<close> to 0.1, whatever
  the fraction and the second draw were; after the loop the keys are the same and every
  fraction is the old one or 0.1.
\<close>

theorem mutation_sets_one_tenth:
  "Math_min (1 / 10) (Math_max (9 / 10) x) = 1 / 10
   \<and> mutated v r = 1 / 10
   \<and> (0 \<le> r1 \<and> r1 < 1 \<and> r1 < mutation_prob \<and> 0 \<le> r2 \<and> r2 < 1
        \<and> mutation mutation_prob rest ds = Inr (rest', ds')
      \<longrightarrow> mutation mutation_prob ((k, v) # rest) (r1 # r2 # ds) = Inr ((k, 1 / 10) # rest', ds'))
   \<and> (mutation mutation_prob bs ds0 = Inr (bs', ds0')
      \<longrightarrow> map fst bs' = map fst bs
          \<and> (\<forall>i < length bs. snd (bs' ! i) = snd (bs ! i) \<or> snd (bs' ! i) = 1 / 10))"
  using mutation_keys_values [of mutation_prob bs ds0 bs' ds0']
  by (simp add: Math_clamp mutated_def)

theorem mutation_sets_one_tenth_witness:
  "mutation (3 / 10) [(''A'', 1 / 2), (''B'', 7 / 10)] [1 / 10, 1 / 2, 9 / 10]
     = Inr ([(''A'', 1 / 10), (''B'', 7 / 10)], [])"
proof -
  have rest: "mutation (3 / 10) [(''B'', 7 / 10)] [9 / 10] = Inr ([(''B'', 7 / 10)], [])"
    by simp
  from mutation_sets_one_tenth
         [of 0 "1 / 2" "1 / 2" "1 / 10" "3 / 10" "1 / 2" "[(''B'', 7 / 10)]" "[9 / 10]"
             "[(''B'', 7 / 10)]" "[]" "''A''" "[]" "[]" "[]" "[]"]
  show ?thesis
    using rest by simp
qed

lemma remove_branch_keeps:
  "remove_branch p bs ds = Inr (bs', ds') \<Longrightarrow> bs' = bs"
  by (auto simp: remove_branch_def Let_def split: option.splits if_splits)

text \<open>
  Claim C7 does not hold of the code. The parents' maps give the child the key \<open>A\<close>
  (first draw above 0.5), the mutation does not fire (second draw), the removal fires
  (third draw, below the probability 0.3) and picks \<open>A\<close> (fourth draw), the addition
  does not fire (fifth draw). The map given to the new specimen still has the key \<open>A\<close>.
\<close>

theorem removal_keeps_every_key:
  "child_breaks (3 / 10) [] [(''A'', 1 / 2)] [] [9 / 10, 9 / 10, 1 / 10, 1 / 2, 9 / 10]
     = Inr ([(''A'', 1 / 2)], [])
   \<and> rand_branch [(''A'', 1 / 2)] (1 / 2) = Some ''A''"
  by (simp add: child_breaks_def remove_branch_def new_branch_def rand_branch_def
        Object_keys_def Math_floor_def)

section \<open>Properties of introduceBreaks\<close>

subsection \<open>Objects\<close>




lemma those_map_defined:
  "\<forall>x\<in>set xs. f x \<noteq> None \<Longrightarrow> those (map f xs) = Some (map (\<lambda>x. the (f x)) xs)"
  by (induction xs) auto



subsection \<open>One break\<close>






subsection \<open>The children of a broken node\<close>







text \<open>
  The search presupposes distances in non-decreasing order. In \<open>unsorted_diagram\<close> the
  child list of \<open>R\<close> has the distances 80, 20 and 100; breaking \<open>R\<close> at 0.5 moves no
  child, although \<open>A\<close> is at the distance 80.
\<close>

lemma introduceBreak_unsorted_example:
  "(case getGeometry (TDiagram unsorted_diagram) of
      Inl e \<Rightarrow> False
    | Inr g \<Rightarrow>
        (case introduceBreak g ''R'' (1 / 2) [1 / 3] of
           Inl e \<Rightarrow> False
         | Inr (g', ds') \<Rightarrow>
             map_option children (obj_get g' ''b33333333333'') = Some []
             \<and> map_option parent (obj_get g' ''A'') = Some ''R''
             \<and> map_option children (obj_get g' ''R'')
                 = Some [Some ''A'', Some ''B'', Some ''b33333333333'', Some ''R_end'']))"
  by (simp add: eval_defs unsorted_diagram_def)



section \<open>Properties of the coordinate assignment\<close>


lemma jsmod_turn_range:
  assumes "0 \<le> p" and "p \<le> 3"
  shows "0 \<le> jsmod (4 + p + angle child) 4 \<and> jsmod (4 + p + angle child) 4 \<le> 3"
proof -
  from assms have "p = 0 \<or> p = 1 \<or> p = 2 \<or> p = 3" by linarith
  moreover have "angle child = 1 \<or> angle child = - 1"
    by (cases child) (simp add: angle_def)
  ultimately show ?thesis
    by (auto simp: jsmod_def)
qed

text \<open>Every orientation that the coordinate assignment gives is one of the four.\<close>

lemma setUpCoordinates_pointing:
  "0 \<le> pnt \<and> pnt \<le> 3 \<Longrightarrow>
     ptree_all (\<lambda>p. 0 \<le> pointing p \<and> pointing p \<le> 3) (setUpCoordinates t par pnt)"
proof (induction t arbitrary: par pnt)
  case (Tree rt cs)
  have "ptree_all (\<lambda>p. 0 \<le> pointing p \<and> pointing p \<le> 3)
          (setUpCoordinates child view (jsmod (4 + pnt + angle child) 4))"
    if "child \<in> set cs" for child view
    using Tree.IH [OF that] jsmod_turn_range [of pnt child] Tree.prems by simp
  then show ?case
    using Tree.prems by (simp add: Let_def end_seg_def list_all_iff)
qed

lemma computeCoord_pointing:
  "computeCoord t = Inr p \<Longrightarrow> ptree_all (\<lambda>p. 0 \<le> pointing p \<and> pointing p \<le> 3) p"
  using setUpCoordinates_pointing [of POINTING_RIGHT]
  by (auto simp: computeCoord_def split: option.splits)





lemma example_placed_eq: "computeCoord (build_tree example_diagram) = Inr example_placed"
  by (simp add: build_tree_def make_nodes_def obj_get_def obj_delete_def computeCoord_def
        coord_add_def getCoordToUpdate_def getDirectionToUpdate_def end_seg_def angle_def
        jsmod_def Let_def example_diagram_def example_placed_def)




text \<open>
  The predicate reaches below the children of the root: it rejects the placement of
  \<open>turn_diagram\<close> in which only \<open>B\<close>, a child of a child, is turned the wrong way.
\<close>

lemma placed_as_claimed_rejects: "\<not> placed_as_claimed turn_tree turn_misplaced"
  by (simp add: turn_tree_def turn_misplaced_def child_as_claimed_def)

section \<open>Properties of cost\<close>

lemma Math_max_max: "Math_max a b = max a b"
  by (simp add: Math_max_def max_def)

lemma Math_min_min: "Math_min a b = min a b"
  by (simp add: Math_min_def min_def)

lemma updateFromGeometry_num_branches:
  "updateFromGeometry st = Inr st' \<Longrightarrow> num_branches st' = num_branches st"
  by (auto simp: updateFromGeometry_def split: sum.splits)

lemma introduceBreaks_num_branches:
  "introduceBreaks st bs ds = Inr (st', ds') \<Longrightarrow> num_branches st' = length (Object_keys bs)"
  by (auto simp: introduceBreaks_def Let_def split: sum.splits
        dest!: updateFromGeometry_num_branches)

lemma example_state_eq: "TDiagramCost (TDiagram example_diagram) = Inr example_state"
  by (simp add: TDiagramCost_def example_geometry_eq example_state_def)

lemma example_canvas:
  "getCanvasWidth (TDiagram example_diagram) = Inr 100"
  "getCanvasHeight (TDiagram example_diagram) = Inr 90"
  unfolding getCanvasWidth_def getCanvasHeight_def getBounds_def example_geometry_eq
  by (simp_all add: example_geometry_def Math_min_def Math_max_def TDiagram_def)

lemma example_intersections: "intersections decimal_less example_geometry = Inr 6"
  by (simp add: example_geometry_def node_segments_def child_key_def obj_get_def
        intersections_def is_horizontal_def is_vertical_def project_def
        uni_dir_intersections_def group_count_def sort_ends_def decimal_less_def show_int_def
        show_nat.simps ahead_def binarySearch_def search_loop.simps Math_round_def
        perp_intersections_def inverse'_def getIntersection_def Let_def)

lemma example_introduceBreaks:
  "\<exists>st'. introduceBreaks example_state [(''R'', 3 / 5)] [1 / 3] = Inr (st', [])"
  by (simp add: eval_defs example_state_def example_geometry_def)

text \<open>
  Claim C1. With \<open>ar = canvasWidth / canvasHeight\<close>, where no division is by zero,
  \<open>cost\<close> returns \<open>branches_factor = num_branches^2\<close>, \<open>intersection_factor\<close> the result
  of \<open>intersections()\<close>, \<open>ar_factor = ratio_gap - 1\<close> with
  \<open>ratio_gap = exp (max ar pref / min ar pref - 1)\<close>, and
  \<open>total = alpha * branches_factor + beta * intersection_factor + ratio_gap^gamma - 1\<close>.
  After \<open>introduceBreaks(breaks)\<close>, \<open>num_branches\<close> is the number of keys of \<open>breaks\<close>.
\<close>

theorem cost_formula:
  "(getCanvasWidth (tdiagram st) = Inr w \<and> getCanvasHeight (tdiagram st) = Inr h
      \<and> h \<noteq> 0 \<and> min (w / h) pref \<noteq> 0 \<and> intersections str_less (geometry st) = Inr isect
    \<longrightarrow> cost str_less st alpha beta gamma pref
          = Inr \<lparr>branches_factor = (real (num_branches st))\<^sup>2,
                 intersection_factor = isect,
                 ar_factor = exp (max (w / h) pref / min (w / h) pref - 1) - 1,
                 total' = alpha * (real (num_branches st))\<^sup>2 + beta * isect
                          + exp (max (w / h) pref / min (w / h) pref - 1) powr gamma - 1\<rparr>)
   \<and> (introduceBreaks st bs ds = Inr (st', ds') \<longrightarrow> num_branches st' = length (Object_keys bs))"
  using introduceBreaks_num_branches [of st bs ds st' ds']
  by (simp add: cost_def Let_def Math_max_max Math_min_min)

theorem cost_formula_witness:
  "cost decimal_less example_state 2 3 1 (10 / 9)
     = Inr \<lparr>branches_factor = 0, intersection_factor = 6, ar_factor = 0, total' = 18\<rparr>
   \<and> (\<exists>st'. introduceBreaks example_state [(''R'', 3 / 5)] [1 / 3] = Inr (st', [])
          \<and> num_branches st' = 1)"
proof -
  from example_introduceBreaks obtain st' where
    st': "introduceBreaks example_state [(''R'', 3 / 5)] [1 / 3] = Inr (st', [])" by blast
  have w: "getCanvasWidth (tdiagram example_state) = Inr 100"
    and h: "getCanvasHeight (tdiagram example_state) = Inr 90"
    by (simp_all add: example_state_def example_canvas)
  have i: "intersections decimal_less (geometry example_state) = Inr 6"
    by (simp add: example_state_def example_intersections)
  from cost_formula [of example_state 100 90 "10 / 9" decimal_less 6 2 3 1
                        "[(''R'', 3 / 5)]" "[1 / 3]" st' "[]"]
  show ?thesis
    using st' w h i by (simp add: example_state_def Object_keys_def)
qed

section \<open>The totals that cost gives, and the selection\<close>

lemma foldl_Math_min_le: "foldl (\<lambda>m v'. Math_min v' m) v vs \<le> v"
proof (induction vs arbitrary: v)
  case Nil
  then show ?case by simp
next
  case (Cons a vs)
  have "foldl (\<lambda>m v'. Math_min v' m) (Math_min a v) vs \<le> Math_min a v"
    by (rule Cons.IH)
  also have "Math_min a v \<le> v" by (simp add: Math_min_def)
  finally show ?case by simp
qed

lemma foldl_Math_max_ge: "v \<le> foldl (\<lambda>m v'. Math_max v' m) v vs"
proof (induction vs arbitrary: v)
  case Nil
  then show ?case by simp
next
  case (Cons a vs)
  have "v \<le> Math_max a v" by (simp add: Math_max_def)
  also have "Math_max a v \<le> foldl (\<lambda>m v'. Math_max v' m) (Math_max a v) vs"
    by (rule Cons.IH)
  finally show ?case by simp
qed

lemma reduce_min_le_reduce_max:
  assumes "reduce_min vs = Inr l" and "reduce_max vs = Inr r"
  shows "l \<le> r"
proof (cases vs)
  case Nil
  with assms show ?thesis by simp
next
  case (Cons v vs')
  with assms have "l = foldl (\<lambda>m v'. Math_min v' m) v vs'"
    and "r = foldl (\<lambda>m v'. Math_max v' m) v vs'" by simp_all
  then show ?thesis
    using foldl_Math_min_le [of v vs'] foldl_Math_max_ge [of v vs'] by linarith
qed

lemma getBounds_ordered:
  assumes "getBounds td = Inr b"
  shows "left b \<le> right b \<and> top' b \<le> bottom b"
proof -
  from assms obtain g where g: "getGeometry td = Inr g"
    by (auto simp: getBounds_def split: sum.splits)
  let ?xs = "map (\<lambda>(k, v). fst (coordinates v)) g"
  let ?ys = "map (\<lambda>(k, v). snd (coordinates v)) g"
  from assms g obtain l r t bt where
    "reduce_min ?xs = Inr l" "reduce_max ?xs = Inr r"
    "reduce_min ?ys = Inr t" "reduce_max ?ys = Inr bt"
    and b: "b = \<lparr>left = l, top' = t, right = r, bottom = bt\<rparr>"
    by (auto simp: getBounds_def Let_def split: sum.splits)
  then show ?thesis
    using reduce_min_le_reduce_max [of ?xs l r] reduce_min_le_reduce_max [of ?ys t bt]
    by simp
qed

lemma canvas_nonneg:
  "getCanvasWidth td = Inr w \<Longrightarrow> 0 \<le> margins_left td \<Longrightarrow> 0 \<le> w"
  "getCanvasHeight td = Inr h \<Longrightarrow> 0 \<le> margins_top td \<Longrightarrow> 0 \<le> h"
  using getBounds_ordered [of td]
  by (auto simp: getCanvasWidth_def getCanvasHeight_def split: sum.splits)

lemma sweep_ge: "count \<le> sweep segments opened count"
proof (induction segments arbitrary: opened count)
  case Nil
  then show ?case by simp
next
  case (Cons segment rest)
  have "0 \<le> getIntersection opened segment" by (simp add: getIntersection_def)
  then have "count \<le> count + getIntersection opened segment" by simp
  also have "\<dots> \<le> sweep rest opened (count + getIntersection opened segment)"
    by (rule Cons.IH)
  finally show ?case
    using Cons.IH [of count] by simp
qed

lemma ahead_nonneg:
  assumes "sorted (map fst segments)" and "index < length segments"
  shows "0 \<le> ahead segments index"
proof -
  let ?n = "int (length segments)"
  let ?x = "snd (segments ! index)"
  from assms(2) have ne: "segments \<noteq> []" by auto
  from binarySearch_sorted [OF ne assms(1), of ?x] obtain i where
    res: "binarySearch segments ?x fst = Some i" and i: "0 \<le> i" "i \<le> ?n"
    and alt: "(i < ?n \<and> fst (segments ! nat i) = ?x)
              \<or> ((\<forall>j. 0 \<le> j \<and> j < i \<longrightarrow> fst (segments ! nat j) < ?x)
                 \<and> (\<forall>j. i \<le> j \<and> j < ?n \<longrightarrow> ?x < fst (segments ! nat j)))"
    by blast
  show ?thesis
  proof (cases "i \<le> int index")
    case True
    then show ?thesis by (simp add: ahead_def res)
  next
    case False
    define m1 where "m1 = (if i \<ge> ?n then ?n - 1 else i)"
    define m2 where "m2 = (if fst (segments ! nat m1) > ?x then m1 - 1 else m1)"
    have a: "ahead segments index = m2 - int index"
      using False by (simp add: ahead_def res m1_def m2_def Let_def)
    have m1: "int index \<le> m1" using False assms(2) by (simp add: m1_def)
    have "int index \<le> m2"
    proof (cases "m1 = int index")
      case True
      with False have "i \<ge> ?n" by (simp add: m1_def split: if_splits)
      with i have in': "i = ?n" by simp
      with alt have "\<forall>j. 0 \<le> j \<and> j < i \<longrightarrow> fst (segments ! nat j) < ?x" by simp
      moreover have "0 \<le> int index \<and> int index < i" using in' assms(2) by simp
      ultimately have "fst (segments ! nat (int index)) < ?x" by blast
      then show ?thesis using True by (simp add: m2_def)
    next
      case False
      with m1 show ?thesis by (simp add: m2_def)
    qed
    with a show ?thesis by simp
  qed
qed

lemma group_count_nonneg: "0 \<le> group_count str_less grp"
proof -
  let ?segments = "sort_key fst (map (sort_ends str_less) grp)"
  have "sorted (map fst ?segments)" by (rule sorted_sort_key)
  then have "0 \<le> ahead ?segments index" if "index < length ?segments" for index
    using that by (rule ahead_nonneg)
  then have "0 \<le> sum_list (map (ahead ?segments) [0 ..< length ?segments])"
    by (intro sum_list_nonneg) auto
  then show ?thesis by (simp add: group_count_def Let_def)
qed

lemma uni_dir_intersections_nonneg: "0 \<le> uni_dir_intersections str_less segments"
  unfolding uni_dir_intersections_def Let_def
  by (intro sum_list_nonneg) (auto simp: group_count_nonneg)

lemma intersections_nonneg:
  assumes "intersections str_less g = Inr isect"
  shows "0 \<le> isect"
proof -
  from assms obtain segments where
    "isect = real_of_int
       (uni_dir_intersections str_less (map (project 0) (filter is_horizontal segments))
        + uni_dir_intersections str_less (map (project 1) (filter is_vertical segments))
        + perp_intersections segments)"
    by (auto simp: intersections_def Let_def split: sum.splits)
  moreover have "0 \<le> perp_intersections segments"
    unfolding perp_intersections_def by (rule sweep_ge)
  ultimately show ?thesis
    using uni_dir_intersections_nonneg [of str_less] by simp
qed

text \<open>
  With weights that are not negative, a positive preferred ratio and margins that are not
  negative (the constructor sets them to 0), a total that \<open>cost\<close> returns is not
  negative.
\<close>

lemma cost_total_nonneg:
  assumes "cost str_less st alpha beta gamma pref = Inr c"
    and "0 \<le> alpha" and "0 \<le> beta" and "0 \<le> gamma" and "0 < pref"
    and "0 \<le> margins_left (tdiagram st)" and "0 \<le> margins_top (tdiagram st)"
  shows "0 \<le> total' c"
proof -
  from assms(1) obtain isect w h where
    isect: "intersections str_less (geometry st) = Inr isect"
    and w: "getCanvasWidth (tdiagram st) = Inr w"
    and h: "getCanvasHeight (tdiagram st) = Inr h"
    by (auto simp: cost_def Let_def split: sum.splits)
  from assms(1) isect w h have h0: "h \<noteq> 0" and m0: "min (w / h) pref \<noteq> 0"
    and c: "total' c = alpha * (real (num_branches st))\<^sup>2 + beta * isect
                        + exp (max (w / h) pref / min (w / h) pref - 1) powr gamma - 1"
    by (auto simp: cost_def Let_def Math_max_max Math_min_min split: if_splits)
  have "0 \<le> w" "0 \<le> h" using canvas_nonneg w h assms(6,7) by blast+
  with h0 have "0 \<le> w / h" by simp
  with m0 assms(5) have "0 < w / h" by (cases "w / h = 0") simp_all
  with assms(5) have mn: "0 < min (w / h) pref" by simp
  have "min (w / h) pref \<le> max (w / h) pref" by simp
  with mn have "1 \<le> max (w / h) pref / min (w / h) pref" by simp
  then have "1 \<le> exp (max (w / h) pref / min (w / h) pref - 1)" by simp
  then have "1 \<le> exp (max (w / h) pref / min (w / h) pref - 1) powr gamma"
    using assms(4) by (rule ge_one_powr_ge_zero)
  moreover have "0 \<le> alpha * (real (num_branches st))\<^sup>2" using assms(2) by simp
  moreover have "0 \<le> beta * isect" using assms(3) intersections_nonneg [OF isect] by simp
  ultimately show ?thesis by (simp add: c)
qed

text \<open>
  When some total is not negative, every specimen that \<open>performSelection\<close> keeps has a
  total below the largest total of the population, and when all totals are equal nothing
  is kept.
\<close>

lemma selection_below_maximum:
  assumes "\<forall>s\<in>set population. cost' s \<noteq> None"
    and "\<forall>s\<in>set population. \<exists>s'\<in>set population. 0 \<le> total' (the (cost' s'))"
    and "length population \<le> length ds"
    and "\<forall>d\<in>set (take (length population) ds). 0 \<le> d \<and> d < 1"
  shows "\<exists>survivors. performSelection population ds = Inr (survivors, drop (length population) ds)
           \<and> (\<forall>s\<in>set survivors.
                 total' (the (cost' s)) < Max ((\<lambda>s. total' (the (cost' s))) ` set population))
           \<and> ((\<forall>s\<in>set population. \<forall>s'\<in>set population.
                  total' (the (cost' s)) = total' (the (cost' s'))) \<longrightarrow> survivors = [])"
proof -
  let ?f = "\<lambda>s. total' (the (cost' s))"
  let ?mx = "Max (insert 0 (?f ` set population))"
  let ?sv = "map fst (filter (\<lambda>(s, d). ?f s < d * ?mx) (zip population ds))"
  have res: "performSelection population ds = Inr (?sv, drop (length population) ds)"
    by (rule performSelection_filter [OF assms(1,3,4)])
  have mx: "?mx = Max (?f ` set population)" if "population \<noteq> []"
  proof -
    from that obtain s0 where "s0 \<in> set population" by (cases population) auto
    with assms(2) obtain s where s: "s \<in> set population" and "0 \<le> ?f s" by blast
    then have "0 \<le> ?f s" by blast
    also have "?f s \<le> Max (?f ` set population)" using s by simp
    finally have "0 \<le> Max (?f ` set population)" .
    moreover have "?mx = max 0 (Max (?f ` set population))"
      using that by simp
    ultimately show ?thesis by simp
  qed
  have mx0: "0 \<le> ?mx" by simp
  have surv: "?f s < Max (?f ` set population)" if "s \<in> set ?sv" for s
  proof -
    from that obtain d where sd: "(s, d) \<in> set (zip population ds)" and lt: "?f s < d * ?mx"
      by auto
    from sd have sp: "s \<in> set population" by (rule set_zip_leftD)
    from sd obtain i where i: "i < length population" "ds ! i = d"
      by (auto simp: set_zip)
    then have "d \<in> set (take (length population) ds)"
      using assms(3) by (auto simp: in_set_conv_nth intro!: exI [of _ i])
    with assms(4) have d: "0 \<le> d" "d < 1" by auto
    have "d * ?mx \<le> ?mx"
      using d mx0 by (simp add: mult_left_le_one_le)
    with lt have "?f s < ?mx" by simp
    moreover have "population \<noteq> []" using sp by auto
    ultimately show ?thesis using mx by simp
  qed
  have eq: "?sv = []"
    if all: "\<forall>s\<in>set population. \<forall>s'\<in>set population. ?f s = ?f s'"
  proof (rule ccontr)
    assume "?sv \<noteq> []"
    then obtain s where s: "s \<in> set ?sv" by (cases ?sv) auto
    then have sp: "s \<in> set population" by (auto dest: set_zip_leftD)
    have "Max (?f ` set population) \<in> ?f ` set population"
      using sp by (intro Max_in) auto
    then obtain s' where "s' \<in> set population" "Max (?f ` set population) = ?f s'" by auto
    with all sp have "Max (?f ` set population) = ?f s" by metis
    with surv [OF s] show False by simp
  qed
  show ?thesis
    using res surv eq by blast
qed

text \<open>
  A negative total is out of reach of \<open>cost\<close> with such weights. Were there one, the
  floor 0 of \<open>maxCost\<close> would let it through: a lone specimen with the total \<open>-1\<close> is
  kept.
\<close>

lemma negative_total_is_kept:
  "performSelection [specimen_of_total 0 (- 1)] [1 / 2] = Inr ([specimen_of_total 0 (- 1)], [])"
  by (simp add: performSelection_def specimen_of_total_def)

text \<open>
  Claim C9. Let the population be graded: every specimen carries the result of \<open>cost\<close>
  on its diagram, for weights \<open>alpha\<close>, \<open>beta\<close>, \<open>gamma\<close> that are not negative and a
  positive preferred ratio, the margins of the diagrams being not negative. With draws from 0
  (inclusive) to 1 (exclusive), one for each specimen, \<open>performSelection\<close> returns, and
  no specimen that it keeps has the largest total of the population; when all totals are
  equal, also when all are 0, nothing is kept.
\<close>

theorem selection_drops_maximum:
  fixes population :: "cost_state specimen list"
  assumes "\<forall>s\<in>set population. \<exists>c. cost' s = Some c
              \<and> cost str_less (diagram s) alpha beta gamma pref = Inr c"
    and "\<forall>s\<in>set population. 0 \<le> margins_left (tdiagram (diagram s))
              \<and> 0 \<le> margins_top (tdiagram (diagram s))"
    and "0 \<le> alpha \<and> 0 \<le> beta \<and> 0 \<le> gamma \<and> 0 < pref"
    and "length population \<le> length ds"
    and "\<forall>d\<in>set (take (length population) ds). 0 \<le> d \<and> d < 1"
  shows "\<exists>survivors. performSelection population ds = Inr (survivors, drop (length population) ds)
           \<and> (\<forall>s\<in>set survivors.
                 total' (the (cost' s)) < Max ((\<lambda>s. total' (the (cost' s))) ` set population))
           \<and> ((\<forall>s\<in>set population. \<forall>s'\<in>set population.
                  total' (the (cost' s)) = total' (the (cost' s'))) \<longrightarrow> survivors = [])"
proof -
  have some: "\<forall>s\<in>set population. cost' s \<noteq> None"
    using assms(1) by auto
  have nonneg: "0 \<le> total' (the (cost' s))" if "s \<in> set population" for s
  proof -
    from assms(1) that obtain c where c: "cost' s = Some c"
      and "cost str_less (diagram s) alpha beta gamma pref = Inr c" by blast
    then have "0 \<le> total' c"
      using assms(2,3) that by (intro cost_total_nonneg [of str_less "diagram s" alpha beta gamma pref]) auto
    with c show ?thesis by simp
  qed
  then have "\<forall>s\<in>set population. \<exists>s'\<in>set population. 0 \<le> total' (the (cost' s'))"
    by blast
  from selection_below_maximum [OF some this assms(4,5)] show ?thesis .
qed

lemma example_cost:
  "cost decimal_less example_state 2 3 1 (10 / 9)
     = Inr \<lparr>branches_factor = 0, intersection_factor = 6, ar_factor = 0, total' = 18\<rparr>"
proof -
  have w: "getCanvasWidth (tdiagram example_state) = Inr 100"
    and h: "getCanvasHeight (tdiagram example_state) = Inr 90"
    by (simp_all add: example_state_def example_canvas)
  have i: "intersections decimal_less (geometry example_state) = Inr 6"
    by (simp add: example_state_def example_intersections)
  have nb: "num_branches example_state = 0"
    by (simp add: example_state_def)
  show ?thesis
    by (simp add: cost_def w h i nb Let_def Math_min_def Math_max_def)
qed

theorem selection_drops_maximum_witness:
  "cost decimal_less example_state 2 3 1 (10 / 9)
     = Inr \<lparr>branches_factor = 0, intersection_factor = 6, ar_factor = 0, total' = 18\<rparr>
   \<and> performSelection
        [\<lparr>diagram = example_state, breaks = [], id' = 0,
          cost' = Some \<lparr>branches_factor = 0, intersection_factor = 6, ar_factor = 0,
                        total' = 18\<rparr>\<rparr>,
         \<lparr>diagram = example_state, breaks = [], id' = 1,
          cost' = Some \<lparr>branches_factor = 0, intersection_factor = 6, ar_factor = 0,
                        total' = 18\<rparr>\<rparr>]
        [1 / 2, 3 / 5]
      = Inr ([], [])"
  using selection_drops_maximum
          [of "[\<lparr>diagram = example_state, breaks = [], id' = 0,
                  cost' = Some \<lparr>branches_factor = 0, intersection_factor = 6, ar_factor = 0,
                                total' = 18\<rparr>\<rparr>,
                 \<lparr>diagram = example_state, breaks = [], id' = 1,
                  cost' = Some \<lparr>branches_factor = 0, intersection_factor = 6, ar_factor = 0,
                                total' = 18\<rparr>\<rparr>]"
              decimal_less 2 3 1 "10 / 9" "[1 / 2, 3 / 5]"]
        example_cost
  by (auto simp: example_state_def TDiagram_def)

section \<open>The empty bend map\<close>

lemma turn_state_eq: "TDiagramCost (TDiagram turn_diagram) = Inr turn_state"
  by (simp add: TDiagramCost_def turn_geometry_eq turn_state_def)

lemma empty_bend_map_reverses_children:
  "map_sum id (\<lambda>(st', ds'). map_option children (obj_get (geometry st') ''R''))
     (introduceBreaks example_state [] [])
     = Inr (Some [Some ''B'', Some ''A'', Some ''R_end''])"
  by (simp add: eval_defs example_state_def example_geometry_def)

text \<open>
  Claim C6 does not hold of the code. In \<open>turn_diagram\<close> the node \<open>B\<close> turns left from
  its parent \<open>A\<close>, which points up, and so points left. \<open>updateFromGeometry\<close> takes the
  \<open>direction\<close> of a node from the sign of the difference of the two orientations, here
  \<open>0 - 3\<close>, and makes \<open>B\<close> turn right: with the empty bend map \<open>B\<close> points right
  afterwards and the end of its segment has moved from \<open>(15, -10)\<close> to \<open>(25, -10)\<close>.
\<close>

theorem empty_bend_map_turns_node:
  "TDiagramCost (TDiagram turn_diagram) = Inr turn_state
   \<and> geometry turn_state = turn_geometry
   \<and> map_sum id (\<lambda>(st', ds'). (geometry st', num_branches st'))
        (introduceBreaks turn_state [] [])
       = Inr (turn_rebuilt, 0)
   \<and> map_option pointing (obj_get turn_geometry ''B'') = Some POINTING_LEFT
   \<and> map_option pointing (obj_get turn_rebuilt ''B'') = Some POINTING_RIGHT
   \<and> map_option coordinates (obj_get turn_geometry ''B_end'') = Some (15, - 10)
   \<and> map_option coordinates (obj_get turn_rebuilt ''B_end'') = Some (25, - 10)"
proof -
  have "map_sum id (\<lambda>(st', ds'). (geometry st', num_branches st'))
          (introduceBreaks turn_state [] [])
        = Inr (turn_rebuilt, 0)"
    by (simp add: eval_defs turn_state_def turn_geometry_def turn_diagram_def turn_rebuilt_def)
  then show ?thesis
    using turn_state_eq
    by (simp add: turn_state_def turn_geometry_def turn_rebuilt_def obj_get_def)
qed

end
